theory Spec2Isabelle
  imports Main "HOL-Library.Multiset"
begin

section \<open>Python strings\<close>

text \<open>
  A Python \<open>str\<close> is modelled as a \<^typ>\<open>string\<close> whose characters are the code points
  below 256 (Latin-1); code points above that are outside the model. The functions of
  this section are the \<open>str\<close> and \<open>re\<close> operations the two modules use, restricted to
  that range.
\<close>

definition is_digit :: "char \<Rightarrow> bool" where
  \<comment> \<open>\<open>\d\<close> of a \<open>str\<close> pattern: a decimal digit; below 256 these are \<open>0\<close> to \<open>9\<close>.\<close>
  "is_digit c = (let n = (of_char c :: nat) in 48 \<le> n \<and> n \<le> 57)"

definition is_space :: "char \<Rightarrow> bool" where
  \<comment> \<open>\<open>str.isspace\<close> and \<open>\s\<close>: TAB to CR, FS to US, space, NEL and NBSP.\<close>
  "is_space c = (let n = (of_char c :: nat) in
     (9 \<le> n \<and> n \<le> 13) \<or> (28 \<le> n \<and> n \<le> 32) \<or> n = 133 \<or> n = 160)"

definition lower_char :: "char \<Rightarrow> char" where
  \<comment> \<open>\<open>A\<close> to \<open>Z\<close>, and the Latin-1 capitals (192 to 222 without the sign 215).\<close>
  "lower_char c = (let n = (of_char c :: nat) in
     if (65 \<le> n \<and> n \<le> 90) \<or> (192 \<le> n \<and> n \<le> 222 \<and> n \<noteq> 215)
     then char_of (n + 32) else c)"

definition is_upper :: "char \<Rightarrow> bool" where
  \<comment> \<open>the characters that \<open>lower_char\<close> changes\<close>
  "is_upper c = (let n = (of_char c :: nat) in
     (65 \<le> n \<and> n \<le> 90) \<or> (192 \<le> n \<and> n \<le> 222 \<and> n \<noteq> 215))"

definition lower :: "string \<Rightarrow> string" where
  \<comment> \<open>\<open>s.lower()\<close>\<close>
  "lower s = map lower_char s"

definition strip_by :: "(char \<Rightarrow> bool) \<Rightarrow> string \<Rightarrow> string" where
  "strip_by p s = rev (dropWhile p (rev (dropWhile p s)))"

definition strip :: "string \<Rightarrow> string" where
  \<comment> \<open>\<open>s.strip()\<close>\<close>
  "strip s = strip_by is_space s"

definition strip_dots :: "string \<Rightarrow> string" where
  \<comment> \<open>\<open>s.strip('.')\<close>\<close>
  "strip_dots s = strip_by (\<lambda>c. c = CHR ''.'') s"

fun startswith :: "string \<Rightarrow> string \<Rightarrow> bool" where
  \<comment> \<open>\<open>s.startswith(p)\<close>, written \<open>startswith p s\<close>\<close>
  "startswith [] s = True"
| "startswith (p # ps) [] = False"
| "startswith (p # ps) (c # cs) = (p = c \<and> startswith ps cs)"

definition endswith :: "string \<Rightarrow> string \<Rightarrow> bool" where
  \<comment> \<open>\<open>s.endswith(p)\<close>, written \<open>endswith p s\<close>\<close>
  "endswith p s = startswith (rev p) (rev s)"

fun contains :: "string \<Rightarrow> string \<Rightarrow> bool" where
  \<comment> \<open>\<open>p in s\<close>, written \<open>contains p s\<close>\<close>
  "contains p [] = (p = [])"
| "contains p (c # cs) = (startswith p (c # cs) \<or> contains p cs)"

section \<open>The outside world\<close>

text \<open>
  An answer of the DNS-over-HTTPS JSON API, with its \<open>name\<close> and \<open>data\<close> fields
  (JSON strings). A query either raises inside the \<open>try\<close> block that issues it (request
  error, non-2xx status, a body that is not JSON) or yields the \<open>Answer\<close> list of the
  reply; a reply without \<open>Answer\<close> and one with an empty list are both falsy for the
  code, and both are \<open>DohReply []\<close>.
\<close>

record answer =
  ans_name :: string
  ans_data :: string

datatype doh_response = DohError | DohReply "answer list"

text \<open>
  The outcome of the \<open>try\<close> block of one TCP probe: it completes, or one of the
  exceptions that the probe catches is raised in it.
\<close>

datatype probe_outcome =
    Connected        \<comment> \<open>\<open>open_connection\<close> returns in time and closing the writer raises nothing\<close>
  | TimedOut         \<comment> \<open>\<open>asyncio.TimeoutError\<close>\<close>
  | Refused          \<comment> \<open>\<open>ConnectionRefusedError\<close>\<close>
  | OsError          \<comment> \<open>any other \<open>OSError\<close>\<close>
  | Unexpected       \<comment> \<open>any other \<open>Exception\<close>\<close>

text \<open>
  A certificate object of the certificate-transparency search, with its optional
  \<open>common_name\<close> and \<open>name_value\<close> fields (JSON strings when present). The search either
  raises inside its \<open>try\<close> block or yields the list of certificates.
\<close>

record cert =
  common_name :: "string option"
  name_value :: "string option"

datatype crt_response = CrtError | CrtReply "cert list"

text \<open>
  Everything the two modules read from outside themselves. \<open>idna_encode\<close> is
  \<open>idna.encode\<close> of the third-party \<open>idna\<close> package: the bytes it returns, or \<open>None\<close>
  where it raises. \<open>gethostbyaddr\<close> is the name \<open>socket.gethostbyaddr\<close> returns, or
  \<open>None\<close> where it raises. \<open>set_order\<close> is the order in which Python iterates over a
  \<open>set\<close> of strings, given the elements in the order of their insertion; the language
  fixes no order, only that each element comes once.
\<close>

record world =
  doh :: "string \<Rightarrow> string \<Rightarrow> doh_response"      \<comment> \<open>name, record type\<close>
  tcp :: "string \<Rightarrow> nat \<Rightarrow> probe_outcome"        \<comment> \<open>ip, port\<close>
  crtsh :: "string \<Rightarrow> crt_response"               \<comment> \<open>domain\<close>
  gethostbyaddr :: "string \<Rightarrow> string option"
  idna_encode :: "string \<Rightarrow> string option"
  set_order :: "string list \<Rightarrow> string list"

type_synonym query = "string \<times> string"

section \<open>Port scanner (\<open>port_scanner.py\<close>)\<close>

subsection \<open>\<open>is_valid_ipv4_address\<close>\<close>

text \<open>
  \<open>re.match(r'^\d{1,3}\.\d{1,3}\.\d{1,3}\.\d{1,3}$', ip)\<close>. Each item of the pattern is
  followed by one that no digit matches, so only the longest run of digits can lead to
  a match, and the matcher below consumes that. Without \<open>re.MULTILINE\<close>, \<open>$\<close> matches
  at the end of the string and also just before a newline that ends the string.
\<close>

definition digits1to3 :: "string \<Rightarrow> string option" where
  \<comment> \<open>\<open>\d{1,3}\<close>: the rest of the string after the digits\<close>
  "digits1to3 s = (let n = length (takeWhile is_digit s) in
     if 1 \<le> n \<and> n \<le> 3 then Some (dropWhile is_digit s) else None)"

definition dot :: "string \<Rightarrow> string option" where
  \<comment> \<open>\<open>\.\<close>\<close>
  "dot s = (case s of [] \<Rightarrow> None | c # r \<Rightarrow> if c = CHR ''.'' then Some r else None)"

definition dollar :: "string \<Rightarrow> bool" where
  \<comment> \<open>\<open>$\<close>\<close>
  "dollar s = (s = [] \<or> s = [CHR 0x0A])"

definition octets :: "string \<Rightarrow> string option" where
  \<comment> \<open>\<open>\d{1,3}\.\d{1,3}\.\d{1,3}\.\d{1,3}\<close> from the start: the rest of the string\<close>
  "octets ip =
     Option.bind (Option.bind (Option.bind (Option.bind (Option.bind (Option.bind
       (digits1to3 ip) dot) digits1to3) dot) digits1to3) dot) digits1to3"

definition is_valid_ipv4_address :: "string \<Rightarrow> bool" where
  "is_valid_ipv4_address ip = (case octets ip of None \<Rightarrow> False | Some r \<Rightarrow> dollar r)"

text \<open>
  The syntax that the specification names, IPv4 dotted-quad: four groups of one to three
  digits, separated by dots, and nothing after them.
\<close>

definition dotted_quad :: "string \<Rightarrow> bool" where
  "dotted_quad s = (octets s = Some [])"

subsection \<open>\<open>resolve_domain_to_ip\<close>\<close>

text \<open>
  The result is paired with the list of DNS-over-HTTPS queries issued. Every exception in
  the body is caught and becomes \<open>None\<close>.
\<close>

definition resolve_domain_to_ip :: "world \<Rightarrow> string \<Rightarrow> string option \<times> query list" where
  "resolve_domain_to_ip w domain =
     (if is_valid_ipv4_address domain then (Some domain, [])
      else (case doh w domain ''A'' of
              DohError \<Rightarrow> None
            | DohReply [] \<Rightarrow> None
            | DohReply (a # _) \<Rightarrow> Some (ans_data a),
            [(domain, ''A'')]))"

subsection \<open>\<open>check_single_port_python\<close> and \<open>local_port_check_python\<close>\<close>

record port_status =
  ps_port :: nat
  ps_open :: bool

definition check_single_port_python :: "world \<Rightarrow> string \<Rightarrow> nat \<Rightarrow> port_status" where
  "check_single_port_python w ip port =
     (case tcp w ip port of
        Connected \<Rightarrow> \<lparr>ps_port = port, ps_open = True\<rparr>
      | TimedOut \<Rightarrow> \<lparr>ps_port = port, ps_open = False\<rparr>
      | Refused \<Rightarrow> \<lparr>ps_port = port, ps_open = False\<rparr>
      | OsError \<Rightarrow> \<lparr>ps_port = port, ps_open = False\<rparr>
      | Unexpected \<Rightarrow> \<lparr>ps_port = port, ps_open = False\<rparr>)"

definition common_ports :: "nat list" where
  "common_ports = [21, 22, 23, 25, 53, 80, 110, 143, 443, 465, 587, 993, 995, 3306, 3389,
     8080, 8443]"

record service =
  sv_port :: nat
  sv_protocol :: string
  sv_service :: string

definition classify :: "nat \<Rightarrow> service" where
  \<comment> \<open>the \<open>if\<close>/\<open>elif\<close> chain over an open port\<close>
  "classify port =
    (if port = 21 then \<lparr>sv_port = port, sv_protocol = ''tcp'', sv_service = ''ftp''\<rparr>
     else if port = 22 then \<lparr>sv_port = port, sv_protocol = ''tcp'', sv_service = ''ssh''\<rparr>
     else if port = 23 then \<lparr>sv_port = port, sv_protocol = ''tcp'', sv_service = ''telnet''\<rparr>
     else if port = 25 then \<lparr>sv_port = port, sv_protocol = ''tcp'', sv_service = ''smtp''\<rparr>
     else if port = 53 then \<lparr>sv_port = port, sv_protocol = ''tcp'', sv_service = ''dns''\<rparr>
     else if port = 80 then \<lparr>sv_port = port, sv_protocol = ''http'', sv_service = ''http''\<rparr>
     else if port = 110 then \<lparr>sv_port = port, sv_protocol = ''tcp'', sv_service = ''pop3''\<rparr>
     else if port = 143 then \<lparr>sv_port = port, sv_protocol = ''tcp'', sv_service = ''imap''\<rparr>
     else if port = 443 then
       \<lparr>sv_port = port, sv_protocol = ''https'', sv_service = ''https''\<rparr>
     else if port = 465 then
       \<lparr>sv_port = port, sv_protocol = ''ssl/tls'', sv_service = ''smtps''\<rparr>
     else if port = 587 then
       \<lparr>sv_port = port, sv_protocol = ''smtp'', sv_service = ''submission''\<rparr>
     else if port = 993 then
       \<lparr>sv_port = port, sv_protocol = ''ssl/tls'', sv_service = ''imaps''\<rparr>
     else if port = 995 then
       \<lparr>sv_port = port, sv_protocol = ''ssl/tls'', sv_service = ''pop3s''\<rparr>
     else if port = 3306 then \<lparr>sv_port = port, sv_protocol = ''tcp'', sv_service = ''mysql''\<rparr>
     else if port = 3389 then \<lparr>sv_port = port, sv_protocol = ''tcp'', sv_service = ''rdp''\<rparr>
     else if port = 8080 then
       \<lparr>sv_port = port, sv_protocol = ''http'', sv_service = ''http-alt''\<rparr>
     else if port = 8443 then
       \<lparr>sv_port = port, sv_protocol = ''https'', sv_service = ''https-alt''\<rparr>
     else \<lparr>sv_port = port, sv_protocol = ''tcp'', sv_service = ''unknown''\<rparr>)"

record port_check =
  pc_source :: string
  pc_ports :: "nat list"
  pc_services :: "service list"
  pc_note :: string

definition local_port_check_python :: "world \<Rightarrow> string \<Rightarrow> port_check" where
  "local_port_check_python w ip =
     (let results = map (check_single_port_python w ip) common_ports;
          open_ports = map ps_port (filter ps_open results);
          services = map (\<lambda>r. classify (ps_port r)) (filter ps_open results)
      in \<lparr>pc_source = ''local-check'', pc_ports = open_ports, pc_services = services,
           pc_note = ''Performed local check on common ports.''\<rparr>)"

subsection \<open>\<open>run_port_scan\<close>\<close>

datatype scan_report =
    ScanError string string
      \<comment> \<open>\<open>error\<close>, \<open>note\<close>\<close>
  | ScanSuccess string string string "nat list" "service list" string
      \<comment> \<open>\<open>target\<close>, \<open>ip\<close>, \<open>source\<close>, \<open>ports\<close>, \<open>services\<close>, \<open>note\<close>\<close>

definition scan_ip :: "world \<Rightarrow> string \<Rightarrow> string \<Rightarrow> scan_report" where
  \<comment> \<open>the part of \<open>run_port_scan\<close> after the target has an IP\<close>
  "scan_ip w target ip =
     (let scan_result = local_port_check_python w ip
      in ScanSuccess target ip (pc_source scan_result) (pc_ports scan_result)
           (pc_services scan_result) (pc_note scan_result))"

definition run_port_scan :: "world \<Rightarrow> string \<Rightarrow> scan_report \<times> query list" where
  "run_port_scan w target =
     (if \<not> is_valid_ipv4_address target then
        (case resolve_domain_to_ip w target of
           (Some resolved_ip, qs) \<Rightarrow>
             if resolved_ip \<noteq> [] then (scan_ip w target resolved_ip, qs)
             else (ScanError (''Could not resolve domain '' @ [CHR 0x27] @ target @ [CHR 0x27]
                      @ '' to IP. Scan cannot proceed.'') ''DNS resolution failed.'', qs)
         | (None, qs) \<Rightarrow>
             (ScanError (''Could not resolve domain '' @ [CHR 0x27] @ target @ [CHR 0x27]
                @ '' to IP. Scan cannot proceed.'') ''DNS resolution failed.'', qs))
      else (scan_ip w target target, []))"

section \<open>DNS enumeration (\<open>dns_enumerator.py\<close>)\<close>

definition COMMON_SUBDOMAINS :: "string list" where
  "COMMON_SUBDOMAINS = [''www'', ''mail'', ''ftp'', ''blog'', ''dev'', ''test'', ''admin'',
     ''api'', ''webmail'', ''secure'', ''vpn'', ''m'', ''portal'', ''shop'', ''store'',
     ''cpanel'', ''autodiscover'', ''docs'', ''support'', ''help'', ''app'', ''dashboard'',
     ''status'', ''forum'', ''news'']"

subsection \<open>\<open>normalizeDomainForDNS\<close>\<close>

definition is_ascii :: "string \<Rightarrow> bool" where
  \<comment> \<open>where \<open>bytes.decode('ascii')\<close> does not raise\<close>
  "is_ascii s = list_all (\<lambda>c. (of_char c :: nat) < 128) s"

text \<open>
  Every exception of the \<open>try\<close> block (from \<open>idna.encode\<close> or from \<open>decode\<close>) is
  caught and becomes \<open>None\<close>.
\<close>

definition normalizeDomainForDNS :: "world \<Rightarrow> string \<Rightarrow> string option" where
  "normalizeDomainForDNS w domain =
     (if contains ''..'' domain then None
      else case idna_encode w domain of
             None \<Rightarrow> None
           | Some bytes \<Rightarrow>
               if \<not> is_ascii bytes then None
               else let punycode_domain = lower bytes
                    in if punycode_domain = [] \<or> contains ''..'' punycode_domain
                          \<or> startswith ''-'' punycode_domain \<or> endswith ''-'' punycode_domain
                       then None
                       else Some punycode_domain)"

definition truthy :: "string option \<Rightarrow> bool" where
  \<comment> \<open>\<open>if x:\<close> for an \<open>Optional[str]\<close>\<close>
  "truthy x = (case x of None \<Rightarrow> False | Some s \<Rightarrow> s \<noteq> [])"

subsection \<open>\<open>get_dns_records\<close>\<close>

record dns_records =
  rec_A :: "string list"
  rec_AAAA :: "string list"
  rec_MX :: "string list"
  rec_NS :: "string list"
  rec_TXT :: "string list"
  rec_CNAME :: "(string \<times> string) list"     \<comment> \<open>\<open>name\<close>, \<open>target\<close>\<close>
  rec_SOA :: "string option"
  rec_PTR :: "string list"

definition no_records :: dns_records where
  "no_records = \<lparr>rec_A = [], rec_AAAA = [], rec_MX = [], rec_NS = [], rec_TXT = [],
     rec_CNAME = [], rec_SOA = None, rec_PTR = []\<rparr>"

definition add_answer :: "string \<Rightarrow> dns_records \<Rightarrow> answer \<Rightarrow> dns_records" where
  \<comment> \<open>the body of \<open>for answer in data["Answer"]\<close>\<close>
  "add_answer q_type records a =
     (if q_type = ''SOA'' then records\<lparr>rec_SOA := Some (ans_data a)\<rparr>
      else if q_type = ''CNAME'' then
        records\<lparr>rec_CNAME := rec_CNAME records @ [(ans_name a, ans_data a)]\<rparr>
      else if q_type = ''A'' then records\<lparr>rec_A := rec_A records @ [ans_data a]\<rparr>
      else if q_type = ''AAAA'' then records\<lparr>rec_AAAA := rec_AAAA records @ [ans_data a]\<rparr>
      else if q_type = ''MX'' then records\<lparr>rec_MX := rec_MX records @ [ans_data a]\<rparr>
      else if q_type = ''NS'' then records\<lparr>rec_NS := rec_NS records @ [ans_data a]\<rparr>
      else if q_type = ''TXT'' then records\<lparr>rec_TXT := rec_TXT records @ [ans_data a]\<rparr>
      else records)"

definition fetch_records :: "world \<Rightarrow> string \<Rightarrow> dns_records \<Rightarrow> string \<Rightarrow> dns_records" where
  \<comment> \<open>the body of \<open>for q_type in query_types\<close>\<close>
  "fetch_records w domain records q_type =
     (case doh w domain q_type of
        DohError \<Rightarrow> records
      | DohReply answers \<Rightarrow> foldl (add_answer q_type) records answers)"

definition get_dns_records :: "world \<Rightarrow> string \<Rightarrow> dns_records" where
  "get_dns_records w domain =
     foldl (fetch_records w domain) no_records
       [''A'', ''AAAA'', ''MX'', ''NS'', ''TXT'', ''CNAME'', ''SOA'']"

subsection \<open>\<open>discover_subdomains_crtsh\<close>\<close>

text \<open>
  A Python \<open>set\<close> of strings is a list without repetition, in the order of insertion;
  \<open>set_order\<close> of the world gives the order of its iteration.
\<close>

definition set_add :: "string \<Rightarrow> string list \<Rightarrow> string list" where
  "set_add x xs = (if x \<in> set xs then xs else xs @ [x])"

fun remove_wildcards :: "string \<Rightarrow> string" where
  \<comment> \<open>\<open>s.replace('*.', '')\<close>\<close>
  "remove_wildcards (c # d # cs) =
     (if c = CHR ''*'' \<and> d = CHR ''.'' then remove_wildcards cs
      else c # remove_wildcards (d # cs))"
| "remove_wildcards cs = cs"

fun split_lines :: "string \<Rightarrow> string list" where
  \<comment> \<open>\<open>s.split('\n')\<close>; the result is never empty, so the \<open>[]\<close> branch is never taken\<close>
  "split_lines [] = [[]]"
| "split_lines (c # cs) =
     (if c = CHR 0x0A then [] # split_lines cs
      else case split_lines cs of [] \<Rightarrow> [[c]] | l # ls \<Rightarrow> (c # l) # ls)"

definition crt_common_name :: "string \<Rightarrow> string \<Rightarrow> string list \<Rightarrow> string list" where
  \<comment> \<open>the body of \<open>if 'common_name' in cert\<close>\<close>
  "crt_common_name domain cn subdomains =
     (if endswith (''.'' @ domain) cn \<or> cn = domain then
        if startswith ''*.'' cn \<and> cn \<noteq> domain
        then set_add (remove_wildcards (lower cn)) subdomains
        else set_add (lower cn) subdomains
      else subdomains)"

definition crt_name :: "string \<Rightarrow> string list \<Rightarrow> string \<Rightarrow> string list" where
  \<comment> \<open>the body of \<open>for name in names\<close>\<close>
  "crt_name domain subdomains name0 =
     (let name = strip name0
      in if startswith ''*.'' name \<and> endswith (''.'' @ domain) name
         then set_add (remove_wildcards (lower name)) subdomains
         else if endswith (''.'' @ domain) name \<or> name = domain
         then set_add (lower name) subdomains
         else subdomains)"

definition crt_cert :: "string \<Rightarrow> string list \<Rightarrow> cert \<Rightarrow> string list" where
  \<comment> \<open>the body of \<open>for cert in certs\<close>\<close>
  "crt_cert domain subdomains c =
     (let s1 = (case common_name c of
                  None \<Rightarrow> subdomains
                | Some cn \<Rightarrow> crt_common_name domain cn subdomains)
      in case name_value c of
           None \<Rightarrow> s1
         | Some nv \<Rightarrow> foldl (crt_name domain) s1 (split_lines nv))"

definition discover_subdomains_crtsh :: "world \<Rightarrow> string \<Rightarrow> string list" where
  "discover_subdomains_crtsh w domain =
     (case crtsh w domain of
        CrtError \<Rightarrow> set_order w []
      | CrtReply certs \<Rightarrow> set_order w (foldl (crt_cert domain) [] certs))"

subsection \<open>\<open>perform_reverse_dns_lookup\<close>\<close>

definition perform_reverse_dns_lookup :: "world \<Rightarrow> string \<Rightarrow> string option" where
  \<comment> \<open>every exception of \<open>gethostbyaddr\<close> is caught and becomes \<open>None\<close>\<close>
  "perform_reverse_dns_lookup w ip_address = gethostbyaddr w ip_address"

subsection \<open>\<open>run_dns_enum\<close>: the graph under construction\<close>

record node =
  node_id :: nat
  node_type :: string
  node_value :: string
  node_label :: string
  txt_records :: "string option"     \<comment> \<open>\<open>None\<close>: the key is absent\<close>

record link =
  link_source :: nat
  link_target :: nat
  link_type :: string

text \<open>The variables that the closure \<open>add_node\<close> and the body of \<open>run_dns_enum\<close> share.\<close>

record enum_state =
  nodes :: "node list"
  links :: "link list"
  node_map :: "string \<rightharpoonup> nat"
  next_node_id :: nat

definition add_node ::
  "string \<Rightarrow> string \<Rightarrow> string option \<Rightarrow> enum_state \<Rightarrow> nat \<times> enum_state" where
  \<comment> \<open>\<open>label or value\<close>: an absent and an empty label both give \<open>value\<close>\<close>
  "add_node ntype val label st =
     (let normalized_value = strip (lower val)
      in case node_map st normalized_value of
           None \<Rightarrow>
             (next_node_id st,
              st\<lparr>nodes := nodes st @
                    [\<lparr>node_id = next_node_id st, node_type = ntype,
                      node_value = normalized_value,
                      node_label = (case label of None \<Rightarrow> val
                                    | Some l \<Rightarrow> if l = [] then val else l),
                      txt_records = None\<rparr>],
                 node_map := (node_map st)(normalized_value \<mapsto> next_node_id st),
                 next_node_id := next_node_id st + 1\<rparr>)
         | Some i \<Rightarrow> (i, st))"

definition add_link :: "nat \<Rightarrow> nat \<Rightarrow> string \<Rightarrow> enum_state \<Rightarrow> enum_state" where
  \<comment> \<open>\<open>links.append({"source": s, "target": t, "type": ty})\<close>\<close>
  "add_link s t ty st =
     st\<lparr>links := links st @ [\<lparr>link_source = s, link_target = t, link_type = ty\<rparr>]\<rparr>"

subsection \<open>\<open>run_dns_enum\<close>: the name of the resolver\<close>

text \<open>
  \<open>run_dns_enum\<close> calls \<open>run_port_scan_resolve_domain_to_ip\<close>. The module neither
  defines nor imports this name, and no other file of the repository binds it. What the
  name is bound to is therefore a parameter of the model: \<open>None\<close> is the module as it
  stands, where reaching a call raises \<open>NameError\<close>, which nothing in \<open>run_dns_enum\<close>
  catches; \<open>Some f\<close> is the module with the name bound to \<open>f\<close>. The function meant is the
  resolver of \<open>port_scanner.py\<close>, \<open>resolve_domain_to_ip\<close>.
\<close>

datatype py_error = NameError

type_synonym binding = "(string \<Rightarrow> string option) option"

definition run_port_scan_resolve_domain_to_ip ::
  "binding \<Rightarrow> string \<Rightarrow> py_error + string option" where
  "run_port_scan_resolve_domain_to_ip b host =
     (case b of None \<Rightarrow> Inl NameError | Some f \<Rightarrow> Inr (f host))"

definition port_scanner_resolver :: "world \<Rightarrow> binding" where
  "port_scanner_resolver w = Some (\<lambda>host. fst (resolve_domain_to_ip w host))"

subsection \<open>\<open>run_dns_enum\<close>: the loops\<close>

fun for_each :: "('s \<Rightarrow> 'a \<Rightarrow> py_error + 's) \<Rightarrow> 's \<Rightarrow> 'a list \<Rightarrow> py_error + 's" where
  \<comment> \<open>a \<open>for\<close> loop whose body may raise\<close>
  "for_each body st [] = Inr st"
| "for_each body st (x # xs) =
     (case body st x of Inl e \<Rightarrow> Inl e | Inr st' \<Rightarrow> for_each body st' xs)"

definition link_ptr :: "world \<Rightarrow> string \<Rightarrow> nat \<Rightarrow> string \<Rightarrow> enum_state \<Rightarrow> enum_state" where
  \<comment> \<open>\<open>hostname = await perform_reverse_dns_lookup(ip)\<close> and the \<open>if\<close> after it, which
      the source writes out four times, comparing with the name \<open>owner\<close> the IP came from\<close>
  "link_ptr w ip ip_id owner st =
     (case perform_reverse_dns_lookup w ip of
        None \<Rightarrow> st
      | Some hostname \<Rightarrow>
          if hostname \<noteq> [] \<and> lower hostname \<noteq> owner then
            (let (hostname_id, st1) = add_node ''domain'' hostname None st
             in add_link ip_id hostname_id ''PTR_record'' st1)
          else st)"

definition link_ip :: "world \<Rightarrow> string \<Rightarrow> nat \<Rightarrow> string option \<Rightarrow> enum_state \<Rightarrow> enum_state" where
  \<comment> \<open>\<open>if mx_ip:\<close>, \<open>if ns_ip:\<close> and \<open>if sub_ip:\<close> with their bodies\<close>
  "link_ip w host host_id x_ip st =
     (case x_ip of
        None \<Rightarrow> st
      | Some ip \<Rightarrow>
          if ip = [] then st
          else (let (ip_id, st1) = add_node ''ip_v4'' ip None st;
                    st2 = add_link host_id ip_id ''A_record'' st1
                in link_ptr w ip ip_id host st2))"

definition a_step :: "world \<Rightarrow> string \<Rightarrow> nat \<Rightarrow> enum_state \<Rightarrow> string \<Rightarrow> enum_state" where
  \<comment> \<open>the body of \<open>for ip in main_dns_records["A"]\<close>\<close>
  "a_step w domain main_domain_id st ip =
     (let (ip_id, st1) = add_node ''ip_v4'' ip None st;
          st2 = add_link main_domain_id ip_id ''A_record'' st1
      in link_ptr w ip ip_id domain st2)"

definition aaaa_step :: "nat \<Rightarrow> enum_state \<Rightarrow> string \<Rightarrow> enum_state" where
  \<comment> \<open>the body of \<open>for ip in main_dns_records["AAAA"]\<close>\<close>
  "aaaa_step main_domain_id st ip =
     (let (ip_id, st1) = add_node ''ip_v6'' ip None st
      in add_link main_domain_id ip_id ''AAAA_record'' st1)"

definition mx_match :: "string \<Rightarrow> string option" where
  \<comment> \<open>group 1 of \<open>re.match(r'\d+\s+(.*)', mx_record)\<close>: the digits and the white space
      are the longest runs, and \<open>.\<close> matches everything but a newline\<close>
  "mx_match s =
     (let r1 = dropWhile is_digit s; r2 = dropWhile is_space r1
      in if takeWhile is_digit s = [] \<or> takeWhile is_space r1 = [] then None
         else Some (takeWhile (\<lambda>c. c \<noteq> CHR 0x0A) r2))"

definition mx_step ::
  "binding \<Rightarrow> world \<Rightarrow> nat \<Rightarrow> enum_state \<Rightarrow> string \<Rightarrow> py_error + enum_state" where
  \<comment> \<open>the body of \<open>for mx_record in main_dns_records["MX"]\<close>\<close>
  "mx_step b w main_domain_id st mx_record =
     (let mx_hostname = lower (case mx_match mx_record of
                                 Some g \<Rightarrow> strip_dots g
                               | None \<Rightarrow> strip_dots mx_record);
          (mx_id, st1) = add_node ''mail_server'' mx_hostname None st;
          st2 = add_link main_domain_id mx_id ''MX_record'' st1
      in case run_port_scan_resolve_domain_to_ip b mx_hostname of
           Inl e \<Rightarrow> Inl e
         | Inr mx_ip \<Rightarrow> Inr (link_ip w mx_hostname mx_id mx_ip st2))"

definition ns_step ::
  "binding \<Rightarrow> world \<Rightarrow> nat \<Rightarrow> enum_state \<Rightarrow> string \<Rightarrow> py_error + enum_state" where
  \<comment> \<open>the body of \<open>for ns_record in main_dns_records["NS"]\<close>\<close>
  "ns_step b w main_domain_id st ns_record =
     (let ns_hostname = lower (strip_dots ns_record);
          (ns_id, st1) = add_node ''name_server'' ns_hostname None st;
          st2 = add_link main_domain_id ns_id ''NS_record'' st1
      in case run_port_scan_resolve_domain_to_ip b ns_hostname of
           Inl e \<Rightarrow> Inl e
         | Inr ns_ip \<Rightarrow> Inr (link_ip w ns_hostname ns_id ns_ip st2))"

fun join_lines :: "string list \<Rightarrow> string" where
  \<comment> \<open>\<open>"\n".join(xs)\<close>\<close>
  "join_lines [] = []"
| "join_lines [x] = x"
| "join_lines (x # y # ys) = x @ [CHR 0x0A] @ join_lines (y # ys)"

fun set_txt :: "nat \<Rightarrow> string \<Rightarrow> node list \<Rightarrow> node list" where
  \<comment> \<open>\<open>for node in nodes: if node["id"] == main_domain_id: ...; break\<close>\<close>
  "set_txt i txt [] = []"
| "set_txt i txt (n # ns) =
     (if node_id n = i then n\<lparr>txt_records := Some txt\<rparr> # ns else n # set_txt i txt ns)"

definition txt_step :: "nat \<Rightarrow> string list \<Rightarrow> enum_state \<Rightarrow> enum_state" where
  \<comment> \<open>\<open>if main_dns_records["TXT"]:\<close> with its body\<close>
  "txt_step main_domain_id txts st =
     (if txts \<noteq> [] then st\<lparr>nodes := set_txt main_domain_id (join_lines txts) (nodes st)\<rparr>
      else st)"

definition cname_step ::
  "binding \<Rightarrow> string \<Rightarrow> nat \<Rightarrow> enum_state \<Rightarrow> string \<times> string \<Rightarrow> py_error + enum_state" where
  \<comment> \<open>the body of \<open>for cname_entry in main_dns_records["CNAME"]\<close>\<close>
  "cname_step b domain main_domain_id st cname_entry =
     (let cname_name = lower (strip_dots (fst cname_entry));
          cname_target = lower (strip_dots (snd cname_entry));
          (cname_origin_id, st1) = add_node ''domain'' cname_name None st;
          (cname_target_id, st2) = add_node ''domain'' cname_target None st1;
          st3 = add_link cname_origin_id cname_target_id ''CNAME_record'' st2;
          st4 = (if cname_name = domain
                 then add_link main_domain_id cname_origin_id ''CNAME_alias'' st3 else st3)
      in case run_port_scan_resolve_domain_to_ip b cname_target of
           Inl e \<Rightarrow> Inl e
         | Inr None \<Rightarrow> Inr st4
         | Inr (Some cname_target_ip) \<Rightarrow>
             if cname_target_ip = [] then Inr st4
             else (let (cname_target_ip_id, st5) = add_node ''ip_v4'' cname_target_ip None st4
                   in Inr (add_link cname_target_id cname_target_ip_id ''A_record'' st5)))"

definition wordlist_step :: "world \<Rightarrow> string \<Rightarrow> string list \<Rightarrow> string \<Rightarrow> string list" where
  \<comment> \<open>the body of \<open>for sub in COMMON_SUBDOMAINS\<close>\<close>
  "wordlist_step w domain discovered sub =
     (let full_subdomain = sub @ ''.'' @ domain
      in if truthy (normalizeDomainForDNS w full_subdomain)
         then set_add full_subdomain discovered else discovered)"

definition crtsh_step :: "world \<Rightarrow> string \<Rightarrow> string list \<Rightarrow> string \<Rightarrow> string list" where
  \<comment> \<open>the body of \<open>for sub in crtsh_subdomains\<close>\<close>
  "crtsh_step w domain discovered sub =
     (if sub \<noteq> domain \<and> truthy (normalizeDomainForDNS w sub)
      then set_add sub discovered else discovered)"

definition subdomain_step ::
  "binding \<Rightarrow> world \<Rightarrow> string \<Rightarrow> nat \<Rightarrow> enum_state \<Rightarrow> string \<Rightarrow> py_error + enum_state" where
  \<comment> \<open>the body of \<open>for subdomain in discovered_subdomains\<close>\<close>
  "subdomain_step b w domain main_domain_id st subdomain =
     (if subdomain \<noteq> domain then
        (let (subdomain_id, st1) = add_node ''subdomain'' subdomain None st;
             st2 = add_link main_domain_id subdomain_id ''has_subdomain'' st1
         in case run_port_scan_resolve_domain_to_ip b subdomain of
              Inl e \<Rightarrow> Inl e
            | Inr sub_ip \<Rightarrow> Inr (link_ip w subdomain subdomain_id sub_ip st2))
      else Inr st)"

subsection \<open>\<open>run_dns_enum\<close>\<close>

record graph =
  g_nodes :: "node list"
  g_links :: "link list"

definition discovered_subdomains :: "world \<Rightarrow> string \<Rightarrow> string list" where
  \<comment> \<open>the set \<open>discovered_subdomains\<close> when the last loop starts\<close>
  "discovered_subdomains w domain =
     foldl (crtsh_step w domain)
       (foldl (wordlist_step w domain) [] COMMON_SUBDOMAINS)
       (discover_subdomains_crtsh w domain)"

definition enum_records ::
  "binding \<Rightarrow> world \<Rightarrow> string \<Rightarrow> nat \<Rightarrow> dns_records \<Rightarrow> enum_state
     \<Rightarrow> py_error + enum_state" where
  \<comment> \<open>the loops over the records of the root domain\<close>
  "enum_records b w domain main_domain_id recs st =
     (let st1 = foldl (a_step w domain main_domain_id) st (rec_A recs);
          st2 = foldl (aaaa_step main_domain_id) st1 (rec_AAAA recs)
      in case for_each (mx_step b w main_domain_id) st2 (rec_MX recs) of
           Inl e \<Rightarrow> Inl e
         | Inr st3 \<Rightarrow>
            (case for_each (ns_step b w main_domain_id) st3 (rec_NS recs) of
               Inl e \<Rightarrow> Inl e
             | Inr st4 \<Rightarrow>
                 for_each (cname_step b domain main_domain_id)
                   (txt_step main_domain_id (rec_TXT recs) st4) (rec_CNAME recs)))"

definition run_dns_enum :: "binding \<Rightarrow> world \<Rightarrow> string \<Rightarrow> py_error + graph" where
  "run_dns_enum b w domain0 =
     (let domain = strip (lower domain0);
          (main_domain_id, st1) =
             add_node ''domain'' domain (Some domain)
               \<lparr>nodes = [], links = [], node_map = Map.empty, next_node_id = 0\<rparr>;
          main_dns_records = get_dns_records w domain
      in case enum_records b w domain main_domain_id main_dns_records st1 of
           Inl e \<Rightarrow> Inl e
         | Inr st2 \<Rightarrow>
            (case for_each (subdomain_step b w domain main_domain_id) st2
                    (set_order w (discovered_subdomains w domain)) of
               Inl e \<Rightarrow> Inl e
             | Inr st3 \<Rightarrow> Inr \<lparr>g_nodes = nodes st3, g_links = links st3\<rparr>))"

section \<open>Example worlds\<close>

definition is_alnum :: "char \<Rightarrow> bool" where
  "is_alnum c = (let n = (of_char c :: nat) in
     (48 \<le> n \<and> n \<le> 57) \<or> (65 \<le> n \<and> n \<le> 90) \<or> (97 \<le> n \<and> n \<le> 122))"

text \<open>
  The encoder of the example worlds stands for \<open>idna.encode\<close> on the names the examples
  pass to it: a name of at most 63 characters made of non-empty labels of ASCII letters
  and digits, separated by single dots, is returned as it is. On every other string,
  which no example passes, it is \<open>None\<close>.
\<close>

definition example_idna :: "string \<Rightarrow> string option" where
  "example_idna s =
     (if s \<noteq> [] \<and> length s \<le> 63 \<and> list_all (\<lambda>c. is_alnum c \<or> c = CHR ''.'') s
         \<and> \<not> startswith ''.'' s \<and> \<not> endswith ''.'' s \<and> \<not> contains ''..'' s
      then Some s else None)"

text \<open>
  The run of the end-to-end example: the upstream has one \<open>A\<close> record for
  \<open>example.com\<close> and nothing else, the certificate search finds nothing, no address has
  a reverse name, and ports 80 and 443 accept connections.
\<close>

definition example_world :: world where
  "example_world =
     \<lparr>doh = (\<lambda>name q_type.
               if name = ''example.com'' \<and> q_type = ''A''
               then DohReply [\<lparr>ans_name = ''example.com'', ans_data = ''93.184.216.34''\<rparr>]
               else DohReply []),
      tcp = (\<lambda>ip port. if port = 80 \<or> port = 443 then Connected else Refused),
      crtsh = (\<lambda>domain. CrtReply []),
      gethostbyaddr = (\<lambda>ip. None),
      idna_encode = example_idna,
      set_order = (\<lambda>xs. xs)\<rparr>"

text \<open>A world in which every lookup fails.\<close>

definition offline_world :: world where
  "offline_world =
     \<lparr>doh = (\<lambda>name q_type. DohError),
      tcp = (\<lambda>ip port. TimedOut),
      crtsh = (\<lambda>domain. CrtError),
      gethostbyaddr = (\<lambda>ip. None),
      idna_encode = example_idna,
      set_order = (\<lambda>xs. xs)\<rparr>"

section \<open>The invariant of the graph under construction\<close>

definition core :: "node \<Rightarrow> nat \<times> string \<times> string \<times> string" where
  "core n = (node_id n, node_type n, node_value n, node_label n)"

definition wf_state :: "enum_state \<Rightarrow> bool" where
  "wf_state st =
     (next_node_id st = length (nodes st) \<and>
      map node_id (nodes st) = [0..<length (nodes st)] \<and>
      distinct (map node_value (nodes st)) \<and>
      (\<forall>v i. (node_map st v = Some i) =
               (i < length (nodes st) \<and> node_value (nodes st ! i) = v)) \<and>
      (\<forall>l \<in> set (links st).
          link_source l < length (nodes st) \<and> link_target l < length (nodes st)))"

definition grows :: "enum_state \<Rightarrow> enum_state \<Rightarrow> bool" where
  "grows st st' = (\<exists>ns. map core (nodes st') = map core (nodes st) @ ns)"

section \<open>The graph of the end-to-end example\<close>

definition subdomain_node :: "nat \<Rightarrow> string \<Rightarrow> node" where
  "subdomain_node i name =
     \<lparr>node_id = i, node_type = ''subdomain'', node_value = name, node_label = name,
      txt_records = None\<rparr>"

definition has_subdomain :: "nat \<Rightarrow> link" where
  "has_subdomain i = \<lparr>link_source = 0, link_target = i, link_type = ''has_subdomain''\<rparr>"

definition wordlist_names :: "string \<Rightarrow> string list" where
  \<comment> \<open>the candidates \<open>f"{sub}.{domain}"\<close> of the wordlist\<close>
  "wordlist_names domain = map (\<lambda>sub. sub @ ''.'' @ domain) COMMON_SUBDOMAINS"

text \<open>
  The root node, the node of its address, and one \<open>subdomain\<close> node with one
  \<open>has_subdomain\<close> link for each name of \<open>names\<close>, in that order.
\<close>

definition example_graph :: "string list \<Rightarrow> graph" where
  "example_graph names =
     \<lparr>g_nodes =
        [\<lparr>node_id = 0, node_type = ''domain'', node_value = ''example.com'',
          node_label = ''example.com'', txt_records = None\<rparr>,
         \<lparr>node_id = 1, node_type = ''ip_v4'', node_value = ''93.184.216.34'',
          node_label = ''93.184.216.34'', txt_records = None\<rparr>]
        @ map (\<lambda>(i, name). subdomain_node i name) (zip [2..<2 + length names] names),
      g_links =
        \<lparr>link_source = 0, link_target = 1, link_type = ''A_record''\<rparr>
        # map has_subdomain [2..<2 + length names]\<rparr>"

text \<open>A query that brings no record: it fails, or its reply has no answer.\<close>

definition no_answer :: "doh_response \<Rightarrow> bool" where
  "no_answer r = (case r of DohError \<Rightarrow> True | DohReply as \<Rightarrow> as = [])"

text \<open>The state of a run on \<open>example.com\<close> after the root node has been added.\<close>

definition example_root_state :: enum_state where
  "example_root_state =
     \<lparr>nodes = [\<lparr>node_id = 0, node_type = ''domain'', node_value = ''example.com'',
                 node_label = ''example.com'', txt_records = None\<rparr>],
      links = [],
      node_map = [''example.com'' \<mapsto> 0],
      next_node_id = 1\<rparr>"

section \<open>What the certificate search contributes\<close>

definition cert_names :: "cert \<Rightarrow> string list" where
  \<comment> \<open>the names of a certificate as the code reads them: \<open>common_name\<close> as it is, and
      each line of \<open>name_value\<close> stripped\<close>
  "cert_names c =
     (case common_name c of None \<Rightarrow> [] | Some cn \<Rightarrow> [cn]) @
     (case name_value c of None \<Rightarrow> [] | Some nv \<Rightarrow> map strip (split_lines nv))"

definition under_domain :: "string \<Rightarrow> string \<Rightarrow> bool" where
  \<comment> \<open>the filter of the code, on the name as returned\<close>
  "under_domain domain name = (endswith (''.'' @ domain) name \<or> name = domain)"

definition folded :: "string \<Rightarrow> string \<Rightarrow> string" where
  \<comment> \<open>the form in which a name that passes the filter enters the set\<close>
  "folded domain name =
     (if startswith ''*.'' name \<and> name \<noteq> domain then remove_wildcards (lower name)
      else lower name)"

text \<open>
  A certificate search that returns an upper-case name, a wildcard name and two lines of
  subject-alternative names.
\<close>

definition crt_world :: world where
  "crt_world =
     \<lparr>doh = (\<lambda>name q_type. DohReply []),
      tcp = (\<lambda>ip port. Refused),
      crtsh = (\<lambda>domain.
        CrtReply [\<lparr>common_name = Some ''WWW.EXAMPLE.COM'', name_value = None\<rparr>,
                  \<lparr>common_name = Some ''*.shop.example.com'',
                   name_value = Some (''Mail.Example.com'' @ [CHR 0x0A] @ '' example.com '')\<rparr>]),
      gethostbyaddr = (\<lambda>ip. None),
      idna_encode = example_idna,
      set_order = (\<lambda>xs. xs)\<rparr>"

section \<open>Properties of the port scanner\<close>

lemma check_single_port_python_port: "ps_port (check_single_port_python w ip p) = p"
  by (cases "tcp w ip p") (simp_all add: check_single_port_python_def)

lemma check_single_port_python_open:
  "ps_open (check_single_port_python w ip p) = (tcp w ip p = Connected)"
  by (cases "tcp w ip p") (simp_all add: check_single_port_python_def)

lemma ipv4_999: "is_valid_ipv4_address ''999.999.999.999''"
  by (simp add: is_valid_ipv4_address_def octets_def digits1to3_def dot_def dollar_def is_digit_def)

lemma ipv4_example: "is_valid_ipv4_address ''93.184.216.34''"
  by (simp add: is_valid_ipv4_address_def octets_def digits1to3_def dot_def dollar_def is_digit_def)

lemma not_ipv4_example_com: "\<not> is_valid_ipv4_address ''example.com''"
  by (simp add: is_valid_ipv4_address_def octets_def digits1to3_def is_digit_def)

lemma not_ipv4_www_example_com: "\<not> is_valid_ipv4_address ''www.example.com''"
  by (simp add: is_valid_ipv4_address_def octets_def digits1to3_def is_digit_def)

lemma dotted_quad_valid: "dotted_quad s \<Longrightarrow> is_valid_ipv4_address s"
  by (simp add: dotted_quad_def is_valid_ipv4_address_def dollar_def)

lemma valid_cases:
  "is_valid_ipv4_address s = (dotted_quad s \<or> octets s = Some [CHR 0x0A])"
  by (auto simp add: dotted_quad_def is_valid_ipv4_address_def dollar_def split: option.splits)

text \<open>
  What holds of \<open>resolve_domain_to_ip\<close>. A dotted quad, the literal \<open>93.184.216.34\<close>
  among them, is returned unchanged, and no DNS query is issued; so is every other string
  that the pattern of \<open>is_valid_ipv4_address\<close> matches. For a string that the pattern
  does not match exactly one query is issued, for the \<open>A\<close> records of that string; the
  result is the \<open>data\<close> of the first answer, and \<open>None\<close> when there is no answer or
  the query fails. The function has no error result: every exception of its body is
  caught.
\<close>

lemma resolve_domain_to_ip_cases:
  "resolve_domain_to_ip w ''93.184.216.34'' = (Some ''93.184.216.34'', []) \<and>
   (dotted_quad d \<longrightarrow> resolve_domain_to_ip w d = (Some d, [])) \<and>
   (is_valid_ipv4_address d \<longrightarrow> resolve_domain_to_ip w d = (Some d, [])) \<and>
   (\<not> is_valid_ipv4_address d \<longrightarrow>
      (\<forall>a as. doh w d ''A'' = DohReply (a # as) \<longrightarrow>
         resolve_domain_to_ip w d = (Some (ans_data a), [(d, ''A'')])) \<and>
      (doh w d ''A'' = DohReply [] \<or> doh w d ''A'' = DohError \<longrightarrow>
         resolve_domain_to_ip w d = (None, [(d, ''A'')])))"
  by (auto simp add: resolve_domain_to_ip_def ipv4_example dotted_quad_valid)

lemma resolve_domain_to_ip_examples:
  "resolve_domain_to_ip example_world ''example.com'' =
     (Some ''93.184.216.34'', [(''example.com'', ''A'')]) \<and>
   resolve_domain_to_ip example_world ''www.example.com'' =
     (None, [(''www.example.com'', ''A'')]) \<and>
   resolve_domain_to_ip offline_world ''www.example.com'' =
     (None, [(''www.example.com'', ''A'')])"
  by (simp add: resolve_domain_to_ip_def not_ipv4_example_com not_ipv4_www_example_com
        example_world_def offline_world_def)

text \<open>
  Claim C6. The claim divides the inputs into those of dotted-quad syntax, returned
  unchanged without a query, and all others, for which one query is issued. The code
  divides them by its pattern, whose \<open>$\<close> also matches before a newline that ends the
  string. \<open>93.184.216.34\<close> followed by a newline is not a dotted quad, and yet it passes
  \<open>is_valid_ipv4_address\<close>, and \<open>resolve_domain_to_ip\<close> returns it, newline included, as
  the IP, without a query.
\<close>

theorem trailing_newline_taken_as_ip:
  "\<not> dotted_quad (''93.184.216.34'' @ [CHR 0x0A]) \<and>
   is_valid_ipv4_address (''93.184.216.34'' @ [CHR 0x0A]) \<and>
   resolve_domain_to_ip w (''93.184.216.34'' @ [CHR 0x0A]) =
     (Some (''93.184.216.34'' @ [CHR 0x0A]), [])"
proof -
  have o: "octets (''93.184.216.34'' @ [CHR 0x0A]) = Some [CHR 0x0A]"
    by (simp add: octets_def digits1to3_def dot_def is_digit_def)
  then show ?thesis
    by (simp add: dotted_quad_def is_valid_ipv4_address_def dollar_def
          resolve_domain_to_ip_def)
qed

text \<open>
  Claim C7. When, of the scanned ports of an IP, exactly 80 and 443 accept a connection,
  \<open>local_port_check_python\<close> returns the open ports 80 and 443 and two services: port 80
  with service and protocol \<open>http\<close>, port 443 with service and protocol \<open>https\<close>. A
  probe that fails (timeout, refusal, another OS error, any other exception) reports its
  port as closed; the probe has no error result.
\<close>

theorem local_port_check_80_443:
  assumes "\<forall>p \<in> set common_ports. (tcp w ip p = Connected) = (p = 80 \<or> p = 443)"
  shows "pc_ports (local_port_check_python w ip) = [80, 443] \<and>
         pc_services (local_port_check_python w ip) =
           [\<lparr>sv_port = 80, sv_protocol = ''http'', sv_service = ''http''\<rparr>,
            \<lparr>sv_port = 443, sv_protocol = ''https'', sv_service = ''https''\<rparr>] \<and>
         (\<forall>p. tcp w ip p \<noteq> Connected \<longrightarrow>
            check_single_port_python w ip p = \<lparr>ps_port = p, ps_open = False\<rparr>)"
proof -
  have closed: "\<And>p. tcp w ip p \<noteq> Connected \<Longrightarrow>
      check_single_port_python w ip p = \<lparr>ps_port = p, ps_open = False\<rparr>"
    by (simp add: check_single_port_python_def split: probe_outcome.splits)
  from assms have o: "\<And>p. p \<in> set common_ports \<Longrightarrow>
      ps_open (check_single_port_python w ip p) = (p = 80 \<or> p = 443)"
    by (simp add: check_single_port_python_open)
  have "filter ps_open (map (check_single_port_python w ip) common_ports) =
        [check_single_port_python w ip 80, check_single_port_python w ip 443]"
    using o by (simp add: common_ports_def)
  then show ?thesis
    using closed
    by (simp add: local_port_check_python_def Let_def check_single_port_python_port classify_def)
qed

theorem local_port_check_80_443_witness:
  "list_all (\<lambda>p. (tcp example_world ''93.184.216.34'' p = Connected) = (p = 80 \<or> p = 443))
     common_ports \<and>
   pc_ports (local_port_check_python example_world ''93.184.216.34'') = [80, 443] \<and>
   pc_services (local_port_check_python example_world ''93.184.216.34'') =
     [\<lparr>sv_port = 80, sv_protocol = ''http'', sv_service = ''http''\<rparr>,
      \<lparr>sv_port = 443, sv_protocol = ''https'', sv_service = ''https''\<rparr>] \<and>
   tcp example_world ''93.184.216.34'' 22 \<noteq> Connected \<and>
   check_single_port_python example_world ''93.184.216.34'' 22 =
     \<lparr>ps_port = 22, ps_open = False\<rparr>"
proof -
  have h: "\<forall>p \<in> set common_ports.
      (tcp example_world ''93.184.216.34'' p = Connected) = (p = 80 \<or> p = 443)"
    by (simp add: example_world_def)
  have c: "tcp example_world ''93.184.216.34'' 22 \<noteq> Connected"
    by (simp add: example_world_def)
  show ?thesis
    using h c local_port_check_80_443 [OF h] by (simp add: list_all_iff)
qed

text \<open>
  Claim C9. \<open>999.999.999.999\<close>, whose octets exceed 255, passes
  \<open>is_valid_ipv4_address\<close>; \<open>resolve_domain_to_ip\<close> returns it unchanged without a DNS
  query, and \<open>run_port_scan\<close> scans it as the IP of the target, again without a query.
\<close>

theorem invalid_octets_pass:
  "is_valid_ipv4_address ''999.999.999.999'' \<and>
   resolve_domain_to_ip w ''999.999.999.999'' = (Some ''999.999.999.999'', []) \<and>
   run_port_scan w ''999.999.999.999'' =
     (ScanSuccess ''999.999.999.999'' ''999.999.999.999'' ''local-check''
        (pc_ports (local_port_check_python w ''999.999.999.999''))
        (pc_services (local_port_check_python w ''999.999.999.999''))
        ''Performed local check on common ports.'', [])"
  by (simp add: ipv4_999 resolve_domain_to_ip_def run_port_scan_def scan_ip_def Let_def
        local_port_check_python_def)

section \<open>Properties of the domain normalizer\<close>

lemma startswith_append: "startswith p (p @ s)"
  by (induction p) simp_all

lemma contains_append: "contains p (pre @ p @ post)"
proof (induction pre)
  case Nil
  show ?case using startswith_append [of p post] by (cases "p @ post") auto
next
  case (Cons c pre)
  then show ?case by simp
qed

lemma of_char_lower_char:
  "(of_char (lower_char c) :: nat) = (if is_upper c then of_char c + 32 else of_char c)"
  by (auto simp add: lower_char_def is_upper_def Let_def)

lemma not_upper_lower_char: "\<not> is_upper (lower_char c)"
  by (auto simp add: is_upper_def Let_def of_char_lower_char)

lemma lower_char_fix: "\<not> is_upper c \<Longrightarrow> lower_char c = c"
  by (auto simp add: lower_char_def is_upper_def Let_def)

lemma lower_lower: "lower (lower s) = lower s"
  by (simp add: lower_def lower_char_fix not_upper_lower_char)

lemma no_upper_lower: "list_all (\<lambda>c. \<not> is_upper c) (lower s)"
  by (simp add: lower_def list_all_iff not_upper_lower_char)

lemma is_ascii_lower: "is_ascii s \<Longrightarrow> is_ascii (lower s)"
  by (auto simp add: is_ascii_def lower_def list_all_iff of_char_lower_char is_upper_def Let_def)

lemma strip_by_prefix: "\<exists>zs. dropWhile p s = strip_by p s @ zs"
proof -
  define u where "u = dropWhile p s"
  have "strip_by p s @ rev (takeWhile p (rev u)) =
        rev (takeWhile p (rev u) @ dropWhile p (rev u))"
    by (simp only: strip_by_def rev_append u_def)
  also have "\<dots> = rev (rev u)" by (simp only: takeWhile_dropWhile_id)
  also have "\<dots> = u" by simp
  finally have "dropWhile p s = strip_by p s @ rev (takeWhile p (rev u))"
    by (simp add: u_def)
  then show ?thesis by blast
qed

lemma strip_by_head: "dropWhile p (strip_by p s) = strip_by p s"
proof (cases "strip_by p s")
  case Nil
  then show ?thesis by simp
next
  case (Cons c cs)
  obtain zs where z: "dropWhile p s = strip_by p s @ zs" using strip_by_prefix by blast
  then have "dropWhile p s \<noteq> []" using Cons by simp
  then have "\<not> p (hd (dropWhile p s))" by (rule hd_dropWhile)
  with z Cons have "\<not> p c" by simp
  with Cons show ?thesis by simp
qed

lemma strip_by_idem: "strip_by p (strip_by p s) = strip_by p s"
proof -
  have "strip_by p (strip_by p s) = rev (dropWhile p (rev (strip_by p s)))"
    by (simp add: strip_by_def [of p "strip_by p s"] strip_by_head)
  also have "rev (strip_by p s) = dropWhile p (rev (dropWhile p s))"
    by (simp add: strip_by_def)
  finally show ?thesis by (simp add: strip_by_def)
qed

lemma set_strip_by: "set (strip_by p s) \<subseteq> set s"
proof -
  have "set (strip_by p s) = set (dropWhile p (rev (dropWhile p s)))"
    by (simp add: strip_by_def)
  also have "\<dots> \<subseteq> set (rev (dropWhile p s))" by (rule set_dropWhileD [THEN subsetI])
  also have "\<dots> \<subseteq> set s" using set_dropWhileD by fastforce
  finally show ?thesis .
qed

lemma lower_strip_lower: "lower (strip (lower s)) = strip (lower s)"
proof -
  have "\<forall>c \<in> set (strip (lower s)). \<not> is_upper c"
    using set_strip_by [of is_space "lower s"] no_upper_lower [of s]
    by (auto simp add: strip_def list_all_iff)
  then show ?thesis by (simp add: lower_def [of "strip (lower s)"] lower_char_fix map_idI)
qed

lemma normal_normal: "strip (lower (strip (lower s))) = strip (lower s)"
  by (simp add: lower_strip_lower) (simp add: strip_def strip_by_idem)

lemma lower_char_dot: "(lower_char c = CHR ''.'') = (c = CHR ''.'')"
proof -
  have "(lower_char c = CHR ''.'') = ((of_char (lower_char c) :: nat) = of_char CHR ''.'')"
    by (simp only: of_char_eq_iff)
  also have "\<dots> = ((of_char c :: nat) = of_char CHR ''.'')"
    by (auto simp add: of_char_lower_char is_upper_def Let_def)
  also have "\<dots> = (c = CHR ''.'')" by (simp only: of_char_eq_iff)
  finally show ?thesis .
qed

lemma dot_lower_char: "(CHR ''.'' = lower_char c) = (c = CHR ''.'')"
  using lower_char_dot [of c] by auto

lemma is_alnum_lower_char: "is_alnum c \<Longrightarrow> is_alnum (lower_char c)"
  by (auto simp add: is_alnum_def Let_def of_char_lower_char is_upper_def)

lemma startswith_dot_lower: "startswith ''.'' (lower s) = startswith ''.'' s"
  by (cases s) (auto simp add: lower_def lower_char_dot dot_lower_char)

lemma startswith_dots_lower: "startswith ''..'' (lower s) = startswith ''..'' s"
proof (cases s)
  case Nil
  then show ?thesis by (simp add: lower_def)
next
  case (Cons c cs)
  then show ?thesis by (cases cs) (auto simp add: lower_def lower_char_dot dot_lower_char)
qed

lemma contains_dots_lower: "contains ''..'' (lower s) = contains ''..'' s"
proof (induction s)
  case Nil
  show ?case by (simp add: lower_def)
next
  case (Cons c cs)
  have "contains ''..'' (lower (c # cs)) =
        (startswith ''..'' (lower (c # cs)) \<or> contains ''..'' (lower cs))"
    by (simp add: lower_def)
  then show ?case using Cons startswith_dots_lower [of "c # cs"] by simp
qed

lemma endswith_dot_lower: "endswith ''.'' (lower s) = endswith ''.'' s"
  using startswith_dot_lower [of "rev s"] by (simp add: endswith_def lower_def rev_map)

lemma example_idna_stable:
  assumes "example_idna s = Some e"
  shows "example_idna (lower e) = Some (lower e)"
proof -
  from assms have e: "e = s" and ok: "s \<noteq> []" "length s \<le> 63"
    "list_all (\<lambda>c. is_alnum c \<or> c = CHR ''.'') s"
    "\<not> startswith ''.'' s" "\<not> endswith ''.'' s" "\<not> contains ''..'' s"
    by (auto simp add: example_idna_def split: if_splits)
  have "list_all (\<lambda>c. is_alnum c \<or> c = CHR ''.'') (lower s)"
    using ok(3) by (auto simp add: lower_def list_all_iff is_alnum_lower_char lower_char_dot)
  moreover have "lower s \<noteq> []" "length (lower s) \<le> 63" using ok by (simp_all add: lower_def)
  ultimately show ?thesis
    using ok e
    by (simp add: example_idna_def startswith_dot_lower endswith_dot_lower contains_dots_lower)
qed

text \<open>
  Claim C4. A string with two consecutive dots anywhere in it is rejected: the result of
  \<open>normalizeDomainForDNS\<close> is \<open>None\<close>, whatever the encoder does.
\<close>

theorem consecutive_dots_rejected: "normalizeDomainForDNS w (pre @ ''..'' @ post) = None"
  using contains_append [of "''..''" pre post] by (simp add: normalizeDomainForDNS_def)

text \<open>
  Claim C5. An accepted output has no upper-case character (\<open>lower\<close> leaves it as it is),
  and normalizing it again returns it unchanged. The second part rests on the encoder of
  the \<open>idna\<close> package, which is not part of the repository; what is assumed of it is that
  it returns unchanged the lower-cased form of a string it has produced.
\<close>

theorem normalizeDomainForDNS_idempotent:
  assumes stable:
      "\<And>s e. idna_encode w s = Some e \<Longrightarrow> idna_encode w (lower e) = Some (lower e)"
    and acc: "normalizeDomainForDNS w d = Some out"
  shows "list_all (\<lambda>c. \<not> is_upper c) out \<and> lower out = out \<and>
         normalizeDomainForDNS w out = Some out"
proof -
  from acc obtain e where e: "idna_encode w d = Some e" and asc: "is_ascii e"
    and out: "out = lower e"
    and ok: "out \<noteq> []" "\<not> contains ''..'' out" "\<not> startswith ''-'' out"
      "\<not> endswith ''-'' out"
    by (auto simp add: normalizeDomainForDNS_def Let_def split: if_splits option.splits)
  have enc: "idna_encode w out = Some out"
    using stable [OF e] out by simp
  have low: "lower out = out" by (simp add: out lower_lower)
  have "normalizeDomainForDNS w out = Some out"
    using ok enc low is_ascii_lower [OF asc] out
    by (simp add: normalizeDomainForDNS_def Let_def)
  then show ?thesis using low no_upper_lower [of e] out by simp
qed

lemma lower_Example_COM: "lower ''Example.COM'' = ''example.com''"
  by (simp add: lower_def lower_char_def char_of_eq_iff)

lemma normalize_Example_COM:
  "normalizeDomainForDNS example_world ''Example.COM'' = Some ''example.com''"
  by (simp add: normalizeDomainForDNS_def example_world_def example_idna_def is_alnum_def
        is_ascii_def lower_Example_COM endswith_def)

theorem normalizeDomainForDNS_idempotent_witness:
  "normalizeDomainForDNS example_world ''Example.COM'' = Some ''example.com'' \<and>
   list_all (\<lambda>c. \<not> is_upper c) ''example.com'' \<and> lower ''example.com'' = ''example.com'' \<and>
   normalizeDomainForDNS example_world ''example.com'' = Some ''example.com''"
proof -
  have stable: "\<And>s e. idna_encode example_world s = Some e \<Longrightarrow>
      idna_encode example_world (lower e) = Some (lower e)"
    by (simp add: example_world_def example_idna_stable)
  show ?thesis
    by (rule conjI [OF normalize_Example_COM
          normalizeDomainForDNS_idempotent [OF stable normalize_Example_COM]])
qed

section \<open>The invariant holds throughout \<open>run_dns_enum\<close>\<close>

lemma grows_refl: "grows st st"
  by (simp add: grows_def)

lemma grows_trans: "grows a b \<Longrightarrow> grows b c \<Longrightarrow> grows a c"
  by (auto simp add: grows_def)

lemma grows_length: "grows st st' \<Longrightarrow> length (nodes st) \<le> length (nodes st')"
proof -
  assume "grows st st'"
  then obtain ns where "map core (nodes st') = map core (nodes st) @ ns"
    by (auto simp add: grows_def)
  then have "length (map core (nodes st')) = length (map core (nodes st) @ ns)" by simp
  then show ?thesis by simp
qed

lemma wf_init: "wf_state \<lparr>nodes = [], links = [], node_map = Map.empty, next_node_id = 0\<rparr>"
  by (simp add: wf_state_def)

lemma add_node_wf:
  assumes "wf_state st" and "add_node t v l st = (i, st')"
  shows "wf_state st' \<and> grows st st' \<and> i < length (nodes st') \<and> links st' = links st"
proof (cases "node_map st (strip (lower v))")
  case None
  define nv where "nv = strip (lower v)"
  define n where "n = length (nodes st)"
  define new where "new = \<lparr>node_id = n, node_type = t, node_value = nv,
      node_label = (case l of None \<Rightarrow> v | Some l \<Rightarrow> if l = [] then v else l),
      txt_records = None\<rparr>"
  from assms(1) have nx: "next_node_id st = n" by (simp add: wf_state_def n_def)
  with assms(2) None have i: "i = n"
    and st': "st' = st\<lparr>nodes := nodes st @ [new], node_map := (node_map st)(nv \<mapsto> n),
                 next_node_id := n + 1\<rparr>"
    by (auto simp add: add_node_def Let_def nv_def new_def)
  from assms(1) have nm: "\<And>u j. (node_map st u = Some j) =
      (j < n \<and> node_value (nodes st ! j) = u)"
    by (simp add: wf_state_def n_def)
  have fresh': "\<And>j. j < n \<Longrightarrow> node_value (nodes st ! j) \<noteq> nv"
  proof
    fix j assume "j < n" "node_value (nodes st ! j) = nv"
    then have "node_map st nv = Some j" by (simp add: nm)
    with None show False by (simp add: nv_def)
  qed
  have fresh: "nv \<notin> set (map node_value (nodes st))"
  proof
    assume "nv \<in> set (map node_value (nodes st))"
    then obtain j where "j < n" "node_value (nodes st ! j) = nv"
      by (auto simp add: in_set_conv_nth n_def)
    with fresh' show False by blast
  qed
  have 1: "next_node_id st' = length (nodes st')" by (simp add: st' n_def)
  have 2: "map node_id (nodes st') = [0..<length (nodes st')]"
    using assms(1) by (simp add: st' wf_state_def new_def n_def)
  have 3: "distinct (map node_value (nodes st'))"
    using assms(1) fresh by (simp add: st' wf_state_def new_def)
  have 4: "(node_map st' u = Some j) = (j < length (nodes st') \<and> node_value (nodes st' ! j) = u)"
    for u j
  proof (cases "j < n")
    case True
    then show ?thesis using fresh' [OF True] nm [of u j]
      by (auto simp add: st' nth_append n_def)
  next
    case False
    then show ?thesis using nm [of u j]
      by (auto simp add: st' nth_append n_def new_def less_Suc_eq)
  qed
  have 5: "\<forall>k \<in> set (links st').
      link_source k < length (nodes st') \<and> link_target k < length (nodes st')"
    using assms(1) by (auto simp add: st' wf_state_def)
  have "wf_state st'" unfolding wf_state_def using 1 2 3 4 5 by blast
  then show ?thesis using i st' by (simp add: grows_def n_def)
next
  case (Some j)
  with assms(2) have "i = j" "st' = st" by (simp_all add: add_node_def Let_def)
  with assms(1) Some show ?thesis by (simp add: grows_refl wf_state_def)
qed

lemma add_link_wf:
  assumes "wf_state st" and "s < length (nodes st)" and "t < length (nodes st)"
  shows "wf_state (add_link s t ty st) \<and> grows st (add_link s t ty st)"
  using assms by (simp add: add_link_def wf_state_def grows_def)


lemma link_ptr_wf:
  assumes "wf_state st" and "ip_id < length (nodes st)"
  shows "wf_state (link_ptr w ip ip_id owner st) \<and> grows st (link_ptr w ip ip_id owner st)"
proof (cases "perform_reverse_dns_lookup w ip")
  case None
  then show ?thesis using assms by (simp add: link_ptr_def grows_refl)
next
  case (Some hostname)
  show ?thesis
  proof (cases "hostname \<noteq> [] \<and> lower hostname \<noteq> owner")
    case False
    then show ?thesis using assms Some by (auto simp add: link_ptr_def grows_refl)
  next
    case True
    obtain h st1 where a: "add_node ''domain'' hostname None st = (h, st1)"
      by (cases "add_node ''domain'' hostname None st")
    note n = add_node_wf [OF assms(1) a]
    have "ip_id < length (nodes st1)" using assms(2) grows_length n by fastforce
    with n have "wf_state (add_link ip_id h ''PTR_record'' st1)"
      "grows st1 (add_link ip_id h ''PTR_record'' st1)"
      by (simp_all add: add_link_wf)
    with n show ?thesis using Some True a by (auto simp add: link_ptr_def intro: grows_trans)
  qed
qed

lemma link_ip_wf:
  assumes "wf_state st" and "host_id < length (nodes st)"
  shows "wf_state (link_ip w host host_id x_ip st) \<and> grows st (link_ip w host host_id x_ip st)"
proof (cases "truthy x_ip")
  case False
  then show ?thesis using assms
    by (auto simp add: link_ip_def truthy_def grows_refl split: option.splits)
next
  case True
  then obtain ip where x: "x_ip = Some ip" "ip \<noteq> []"
    by (auto simp add: truthy_def split: option.splits)
  obtain i st1 where a: "add_node ''ip_v4'' ip None st = (i, st1)"
    by (cases "add_node ''ip_v4'' ip None st")
  note n = add_node_wf [OF assms(1) a]
  have "host_id < length (nodes st1)" using assms(2) grows_length n by fastforce
  with n have l: "wf_state (add_link host_id i ''A_record'' st1)"
    "grows st1 (add_link host_id i ''A_record'' st1)"
    by (simp_all add: add_link_wf)
  have "i < length (nodes (add_link host_id i ''A_record'' st1))"
    using n by (simp add: add_link_def)
  note p = link_ptr_wf [OF l(1) this, of w ip host]
  show ?thesis using x a n l p by (auto simp add: link_ip_def intro: grows_trans)
qed

lemma a_step_wf:
  assumes "wf_state st" and "m < length (nodes st)"
  shows "wf_state (a_step w domain m st ip) \<and> grows st (a_step w domain m st ip)"
proof -
  obtain i st1 where a: "add_node ''ip_v4'' ip None st = (i, st1)"
    by (cases "add_node ''ip_v4'' ip None st")
  note n = add_node_wf [OF assms(1) a]
  have "m < length (nodes st1)" using assms(2) grows_length n by fastforce
  with n have l: "wf_state (add_link m i ''A_record'' st1)"
    "grows st1 (add_link m i ''A_record'' st1)"
    by (simp_all add: add_link_wf)
  have "i < length (nodes (add_link m i ''A_record'' st1))"
    using n by (simp add: add_link_def)
  note p = link_ptr_wf [OF l(1) this, of w ip domain]
  show ?thesis using a n l p by (auto simp add: a_step_def intro: grows_trans)
qed

lemma aaaa_step_wf:
  assumes "wf_state st" and "m < length (nodes st)"
  shows "wf_state (aaaa_step m st ip) \<and> grows st (aaaa_step m st ip)"
proof -
  obtain i st1 where a: "add_node ''ip_v6'' ip None st = (i, st1)"
    by (cases "add_node ''ip_v6'' ip None st")
  note n = add_node_wf [OF assms(1) a]
  have "m < length (nodes st1)" using assms(2) grows_length n by fastforce
  with n have l: "wf_state (add_link m i ''AAAA_record'' st1)"
    "grows st1 (add_link m i ''AAAA_record'' st1)"
    by (simp_all add: add_link_wf)
  show ?thesis using a n l by (auto simp add: aaaa_step_def intro: grows_trans)
qed

lemma host_step_wf:
  assumes "wf_state st" and "m < length (nodes st)"
    and a: "add_node ty host None st = (i, st1)"
  shows "wf_state (link_ip w host i x_ip (add_link m i rel st1)) \<and>
         grows st (link_ip w host i x_ip (add_link m i rel st1))"
proof -
  note n = add_node_wf [OF assms(1) a]
  have "m < length (nodes st1)" using assms(2) grows_length n by fastforce
  with n have l: "wf_state (add_link m i rel st1)" "grows st1 (add_link m i rel st1)"
    by (simp_all add: add_link_wf)
  have "i < length (nodes (add_link m i rel st1))"
    using n by (simp add: add_link_def)
  note p = link_ip_wf [OF l(1) this, of w host x_ip]
  show ?thesis using n l p by (auto intro: grows_trans)
qed

lemma mx_step_wf:
  assumes "wf_state st" and "m < length (nodes st)" and "mx_step b w m st r = Inr st'"
  shows "wf_state st' \<and> grows st st'"
proof -
  define host where "host = lower (case mx_match r of Some g \<Rightarrow> strip_dots g
                               | None \<Rightarrow> strip_dots r)"
  obtain i st1 where a: "add_node ''mail_server'' host None st = (i, st1)"
    by (cases "add_node ''mail_server'' host None st")
  from assms(3) a obtain x where
    "st' = link_ip w host i x (add_link m i ''MX_record'' st1)"
    by (auto simp add: mx_step_def Let_def host_def split: sum.splits)
  then show ?thesis using host_step_wf [OF assms(1,2) a] by simp
qed

lemma ns_step_wf:
  assumes "wf_state st" and "m < length (nodes st)" and "ns_step b w m st r = Inr st'"
  shows "wf_state st' \<and> grows st st'"
proof -
  define host where "host = lower (strip_dots r)"
  obtain i st1 where a: "add_node ''name_server'' host None st = (i, st1)"
    by (cases "add_node ''name_server'' host None st")
  from assms(3) a obtain x where
    "st' = link_ip w host i x (add_link m i ''NS_record'' st1)"
    by (auto simp add: ns_step_def Let_def host_def split: sum.splits)
  then show ?thesis using host_step_wf [OF assms(1,2) a] by simp
qed

lemma subdomain_step_wf:
  assumes "wf_state st" and "m < length (nodes st)"
    and "subdomain_step b w domain m st sub = Inr st'"
  shows "wf_state st' \<and> grows st st'"
proof (cases "sub = domain")
  case True
  then show ?thesis using assms by (simp add: subdomain_step_def grows_refl)
next
  case False
  obtain i st1 where a: "add_node ''subdomain'' sub None st = (i, st1)"
    by (cases "add_node ''subdomain'' sub None st")
  from assms(3) a False obtain x where
    "st' = link_ip w sub i x (add_link m i ''has_subdomain'' st1)"
    by (auto simp add: subdomain_step_def Let_def split: sum.splits)
  then show ?thesis using host_step_wf [OF assms(1,2) a] by simp
qed


lemma cname_step_wf:
  assumes "wf_state st" and "m < length (nodes st)"
    and "cname_step b domain m st e = Inr st'"
  shows "wf_state st' \<and> grows st st'"
proof -
  define cn where "cn = lower (strip_dots (fst e))"
  define ct where "ct = lower (strip_dots (snd e))"
  obtain i st1 where a1: "add_node ''domain'' cn None st = (i, st1)"
    by (cases "add_node ''domain'' cn None st")
  note n1 = add_node_wf [OF assms(1) a1]
  obtain j st2 where a2: "add_node ''domain'' ct None st1 = (j, st2)"
    by (cases "add_node ''domain'' ct None st1")
  from n1 have w1: "wf_state st1" by simp
  note n2 = add_node_wf [OF w1 a2]
  have i2: "i < length (nodes st2)" using n1 n2 grows_length by fastforce
  have m2: "m < length (nodes st2)"
    using assms(2) n1 n2 grows_length [of st st1] grows_length [of st1 st2] by simp
  define st3 where "st3 = add_link i j ''CNAME_record'' st2"
  have l3: "wf_state st3" "grows st2 st3" "length (nodes st3) = length (nodes st2)"
    using n2 i2 by (simp_all add: st3_def add_link_wf) (simp add: add_link_def)
  define st4 where "st4 = (if cn = domain then add_link m i ''CNAME_alias'' st3 else st3)"
  have l4: "wf_state st4" "grows st3 st4" "length (nodes st4) = length (nodes st3)"
    using l3 i2 m2 by (auto simp add: st4_def add_link_wf grows_refl) (simp add: add_link_def)
  have g4: "grows st st4" using n1 n2 l3 l4 by (blast intro: grows_trans)
  have j4: "j < length (nodes st4)" using n2 l3 l4 by simp
  show ?thesis
  proof (cases "run_port_scan_resolve_domain_to_ip b ct")
    case (Inl err)
    then show ?thesis using assms(3) a1 a2
      by (simp add: cname_step_def Let_def cn_def [symmetric] ct_def [symmetric])
  next
    case (Inr x)
    show ?thesis
    proof (cases "truthy x")
      case False
      then have "st' = st4" using assms(3) a1 a2 Inr
        by (auto simp add: cname_step_def Let_def cn_def [symmetric] ct_def [symmetric]
              st3_def st4_def truthy_def split: option.splits)
      then show ?thesis using l4 g4 by simp
    next
      case True
      then obtain ip where x: "x = Some ip" "ip \<noteq> []"
        by (auto simp add: truthy_def split: option.splits)
      obtain k st5 where a5: "add_node ''ip_v4'' ip None st4 = (k, st5)"
        by (cases "add_node ''ip_v4'' ip None st4")
      have s: "st' = add_link j k ''A_record'' st5"
        using assms(3) a1 a2 Inr x a5 [unfolded st4_def st3_def]
        by (simp add: cname_step_def Let_def cn_def [symmetric] ct_def [symmetric])
      note n5 = add_node_wf [OF l4(1) a5]
      have "j < length (nodes st5)" using j4 n5 grows_length by fastforce
      with n5 have "wf_state (add_link j k ''A_record'' st5)"
        "grows st5 (add_link j k ''A_record'' st5)"
        by (simp_all add: add_link_wf)
      with n5 g4 show ?thesis using s by (auto intro: grows_trans)
    qed
  qed
qed

lemma set_txt_core: "map core (set_txt i t ns) = map core ns"
  by (induction ns) (simp_all add: core_def)

lemma set_txt_id: "map node_id (set_txt i t ns) = map node_id ns"
  by (induction ns) simp_all

lemma set_txt_value: "map node_value (set_txt i t ns) = map node_value ns"
  by (induction ns) simp_all

lemma set_txt_length: "length (set_txt i t ns) = length ns"
  by (induction ns) simp_all

lemma set_txt_nth_value:
  "j < length ns \<Longrightarrow> node_value (set_txt i t ns ! j) = node_value (ns ! j)"
  using set_txt_value [of i t ns] set_txt_length [of i t ns]
  by (metis nth_map)

lemma txt_step_wf:
  assumes "wf_state st"
  shows "wf_state (txt_step m txts st) \<and> grows st (txt_step m txts st)"
proof (cases "txts = []")
  case True
  then show ?thesis using assms by (simp add: txt_step_def grows_refl)
next
  case False
  then have s: "txt_step m txts st = st\<lparr>nodes := set_txt m (join_lines txts) (nodes st)\<rparr>"
    by (simp add: txt_step_def)
  have "wf_state (st\<lparr>nodes := set_txt m (join_lines txts) (nodes st)\<rparr>)"
    using assms unfolding wf_state_def
    by (simp add: set_txt_id set_txt_value set_txt_length set_txt_nth_value cong: conj_cong)
  then show ?thesis by (simp add: s grows_def set_txt_core)
qed

lemma foldl_wf:
  assumes step: "\<And>st x. wf_state st \<Longrightarrow> m < length (nodes st) \<Longrightarrow>
                   wf_state (f st x) \<and> grows st (f st x)"
    and "wf_state st" and "m < length (nodes st)"
  shows "wf_state (foldl f st xs) \<and> grows st (foldl f st xs)"
  using assms(2,3)
proof (induction xs arbitrary: st)
  case Nil
  then show ?case by (simp add: grows_refl)
next
  case (Cons x xs)
  note s = step [OF Cons.prems, of x]
  then have "m < length (nodes (f st x))" using Cons.prems(2) grows_length by fastforce
  with s Cons.IH [of "f st x"] show ?case by (auto intro: grows_trans)
qed

lemma for_each_wf:
  assumes step: "\<And>st x st'. wf_state st \<Longrightarrow> m < length (nodes st) \<Longrightarrow> f st x = Inr st' \<Longrightarrow>
                   wf_state st' \<and> grows st st'"
    and "wf_state st" and "m < length (nodes st)" and "for_each f st xs = Inr st'"
  shows "wf_state st' \<and> grows st st'"
  using assms(2,3,4)
proof (induction xs arbitrary: st)
  case Nil
  then show ?case by (simp add: grows_refl)
next
  case (Cons x xs)
  from Cons.prems(3) obtain st1 where f: "f st x = Inr st1" and r: "for_each f st1 xs = Inr st'"
    by (auto split: sum.splits)
  note s = step [OF Cons.prems(1,2) f]
  then have "m < length (nodes st1)" using Cons.prems(2) grows_length by fastforce
  with s Cons.IH [of st1] r show ?case by (auto intro: grows_trans)
qed

lemma enum_records_wf:
  assumes "wf_state st" and "m < length (nodes st)"
    and "enum_records b w domain m recs st = Inr st'"
  shows "wf_state st' \<and> grows st st'"
proof -
  define st1 where "st1 = foldl (a_step w domain m) st (rec_A recs)"
  define st2 where "st2 = foldl (aaaa_step m) st1 (rec_AAAA recs)"
  have 1: "wf_state st1 \<and> grows st st1"
    unfolding st1_def
    by (rule foldl_wf [where f = "a_step w domain m" and m = m, OF a_step_wf assms(1,2)])
  then have m1: "m < length (nodes st1)" using assms(2) grows_length by fastforce
  have 2: "wf_state st2 \<and> grows st1 st2"
    unfolding st2_def
    by (rule foldl_wf [where f = "aaaa_step m" and m = m, OF aaaa_step_wf conjunct1 [OF 1] m1])
  then have m2: "m < length (nodes st2)" using m1 grows_length by fastforce
  from assms(3) obtain st3 st4 where
    mx: "for_each (mx_step b w m) st2 (rec_MX recs) = Inr st3" and
    ns: "for_each (ns_step b w m) st3 (rec_NS recs) = Inr st4" and
    cn: "for_each (cname_step b domain m) (txt_step m (rec_TXT recs) st4) (rec_CNAME recs)
           = Inr st'"
    by (auto simp add: enum_records_def Let_def st1_def st2_def split: sum.splits)
  have 3: "wf_state st3 \<and> grows st2 st3"
    by (rule for_each_wf [where f = "mx_step b w m" and m = m,
          OF mx_step_wf conjunct1 [OF 2] m2 mx])
  then have m3: "m < length (nodes st3)" using m2 grows_length by fastforce
  have 4: "wf_state st4 \<and> grows st3 st4"
    by (rule for_each_wf [where f = "ns_step b w m" and m = m,
          OF ns_step_wf conjunct1 [OF 3] m3 ns])
  then have m4: "m < length (nodes st4)" using m3 grows_length by fastforce
  have 5: "wf_state (txt_step m (rec_TXT recs) st4) \<and> grows st4 (txt_step m (rec_TXT recs) st4)"
    using 4 by (simp add: txt_step_wf)
  then have m5: "m < length (nodes (txt_step m (rec_TXT recs) st4))"
    using m4 grows_length by fastforce
  have 6: "wf_state st' \<and> grows (txt_step m (rec_TXT recs) st4) st'"
    by (rule for_each_wf [where f = "cname_step b domain m" and m = m,
          OF cname_step_wf conjunct1 [OF 5] m5 cn])
  show ?thesis using 1 2 3 4 5 6 by (blast intro: grows_trans)
qed


lemma run_dns_enum_wf:
  assumes "run_dns_enum b w d = Inr g"
  shows "\<exists>st. wf_state st \<and> g_nodes g = nodes st \<and> g_links g = links st \<and>
              nodes st \<noteq> [] \<and>
              core (nodes st ! 0) = (0, ''domain'', strip (lower d), strip (lower d))"
proof -
  define domain where "domain = strip (lower d)"
  define st0 where
    "st0 = \<lparr>nodes = [], links = [], node_map = Map.empty, next_node_id = 0\<rparr>"
  define root where "root = \<lparr>node_id = 0, node_type = ''domain'',
      node_value = strip (lower domain), node_label = domain, txt_records = None\<rparr>"
  define st1 where "st1 = st0\<lparr>nodes := [root],
      node_map := [strip (lower domain) \<mapsto> 0], next_node_id := 1\<rparr>"
  have a: "add_node ''domain'' domain (Some domain) st0 = (0, st1)"
    by (simp add: add_node_def st0_def st1_def root_def Let_def)
  have w0: "wf_state st0" by (simp add: st0_def wf_init)
  note n1 = add_node_wf [OF w0 a]
  have m1: "0 < length (nodes st1)" by (simp add: st1_def)
  from assms a obtain st2 st3 where
    e: "enum_records b w domain 0 (get_dns_records w domain) st1 = Inr st2" and
    s: "for_each (subdomain_step b w domain 0) st2
          (set_order w (discovered_subdomains w domain)) = Inr st3" and
    g: "g = \<lparr>g_nodes = nodes st3, g_links = links st3\<rparr>"
    by (auto simp add: run_dns_enum_def Let_def domain_def [symmetric] st0_def [symmetric]
          split: sum.splits)
  have 2: "wf_state st2 \<and> grows st1 st2"
    using n1 m1 e by (intro enum_records_wf [where st = st1]) simp_all
  then have m2: "0 < length (nodes st2)" using m1 grows_length by fastforce
  have 3: "wf_state st3 \<and> grows st2 st3"
    by (rule for_each_wf [where f = "subdomain_step b w domain 0" and m = 0,
          OF subdomain_step_wf conjunct1 [OF 2] m2 s])
  have "grows st1 st3" using 2 3 by (blast intro: grows_trans)
  then obtain ns where "map core (nodes st3) = map core (nodes st1) @ ns"
    by (auto simp add: grows_def)
  then have c: "map core (nodes st3) = core root # ns" by (simp add: st1_def)
  then have ne: "nodes st3 \<noteq> []" by auto
  then have "core (nodes st3 ! 0) = map core (nodes st3) ! 0" by simp
  also have "\<dots> = core root" by (simp add: c)
  finally have "core (nodes st3 ! 0) = (0, ''domain'', strip (lower domain), domain)"
    by (simp add: core_def root_def)
  with 3 g ne show ?thesis by (auto simp add: domain_def normal_normal)
qed

section \<open>Runs of \<open>run_dns_enum\<close>\<close>

subsection \<open>With the resolver's name unbound\<close>

lemma subdomain_step_unbound:
  "sub \<noteq> domain \<Longrightarrow> subdomain_step None w domain m st sub = Inl NameError"
  by (simp add: subdomain_step_def run_port_scan_resolve_domain_to_ip_def Let_def
        split: prod.splits)

lemma for_each_unbound:
  "\<exists>x \<in> set xs. x \<noteq> domain \<Longrightarrow>
   for_each (subdomain_step None w domain m) st xs = Inl NameError"
proof (induction xs arbitrary: st)
  case Nil
  then show ?case by simp
next
  case (Cons x xs)
  show ?case
  proof (cases "x = domain")
    case True
    with Cons.prems have "\<exists>y \<in> set xs. y \<noteq> domain" by auto
    from Cons.IH [OF this] True show ?thesis by (simp add: subdomain_step_def)
  next
    case False
    then show ?thesis by (simp add: subdomain_step_unbound)
  qed
qed

lemma run_unbound:
  assumes "x \<in> set (set_order w (discovered_subdomains w (strip (lower d))))"
    and "x \<noteq> strip (lower d)"
  shows "run_dns_enum None w d = Inl NameError"
proof -
  define domain where "domain = strip (lower d)"
  obtain m st1 where a: "add_node ''domain'' domain (Some domain)
      \<lparr>nodes = [], links = [], node_map = Map.empty, next_node_id = 0\<rparr> = (m, st1)"
    by (cases "add_node ''domain'' domain (Some domain)
      \<lparr>nodes = [], links = [], node_map = Map.empty, next_node_id = 0\<rparr>")
  have sub: "for_each (subdomain_step None w domain m) st
               (set_order w (discovered_subdomains w domain)) = Inl NameError" for st
    using assms unfolding domain_def [symmetric] by (intro for_each_unbound) blast
  show ?thesis
  proof (cases "enum_records None w domain m (get_dns_records w domain) st1")
    case (Inl err)
    then show ?thesis
      using a by (cases err) (simp add: run_dns_enum_def Let_def domain_def [symmetric])
  next
    case (Inr st2)
    then show ?thesis
      using a sub [of st2] by (simp add: run_dns_enum_def Let_def domain_def [symmetric])
  qed
qed

lemma set_add_set: "set (set_add x xs) = insert x (set xs)"
  by (auto simp add: set_add_def)

lemma wordlist_step_mono: "x \<in> set acc \<Longrightarrow> x \<in> set (wordlist_step w d acc y)"
  by (simp add: wordlist_step_def Let_def set_add_set)

lemma crtsh_step_mono: "x \<in> set acc \<Longrightarrow> x \<in> set (crtsh_step w d acc y)"
  by (simp add: crtsh_step_def set_add_set)

lemma foldl_wordlist_mono: "x \<in> set acc \<Longrightarrow> x \<in> set (foldl (wordlist_step w d) acc ys)"
  by (induction ys arbitrary: acc) (simp_all add: wordlist_step_mono)

lemma foldl_crtsh_mono: "x \<in> set acc \<Longrightarrow> x \<in> set (foldl (crtsh_step w d) acc ys)"
  by (induction ys arbitrary: acc) (simp_all add: crtsh_step_mono)

lemma www_discovered:
  assumes "truthy (normalizeDomainForDNS w (''www.'' @ d))"
  shows "''www.'' @ d \<in> set (discovered_subdomains w d)"
proof -
  obtain rest where c: "COMMON_SUBDOMAINS = ''www'' # rest"
    by (simp add: COMMON_SUBDOMAINS_def)
  have 1: "''www.'' @ d \<in> set (wordlist_step w d [] ''www'')"
    using assms by (simp add: wordlist_step_def set_add_set)
  have "foldl (wordlist_step w d) [] COMMON_SUBDOMAINS =
        foldl (wordlist_step w d) (wordlist_step w d [] ''www'') rest"
    by (simp only: c foldl.simps)
  with foldl_wordlist_mono [OF 1, of w d rest]
  have "''www.'' @ d \<in> set (foldl (wordlist_step w d) [] COMMON_SUBDOMAINS)" by simp
  then show ?thesis by (simp add: discovered_subdomains_def foldl_crtsh_mono)
qed

lemma normal_example_com: "strip (lower ''example.com'') = ''example.com''"
  by (simp add: strip_def strip_by_def is_space_def lower_def lower_char_def)

lemma example_idna_www: "example_idna ''www.example.com'' = Some ''www.example.com''"
  by (simp add: example_idna_def is_alnum_def endswith_def)

lemma lower_www: "lower ''www.example.com'' = ''www.example.com''"
  by (simp add: lower_def lower_char_def)

lemma normalize_www:
  "idna_encode w = example_idna \<Longrightarrow>
   normalizeDomainForDNS w ''www.example.com'' = Some ''www.example.com''"
  by (simp add: normalizeDomainForDNS_def example_idna_www lower_www is_ascii_def endswith_def)

lemma offline_run_unbound: "run_dns_enum None offline_world ''example.com'' = Inl NameError"
proof -
  have "truthy (normalizeDomainForDNS offline_world (''www.'' @ ''example.com''))"
    using normalize_www [of offline_world] by (simp add: offline_world_def truthy_def)
  from www_discovered [OF this]
  have "''www.example.com'' \<in>
      set (set_order offline_world (discovered_subdomains offline_world ''example.com''))"
    by (simp add: offline_world_def)
  then show ?thesis
    by (intro run_unbound [where x = "''www.example.com''"]) (simp_all add: normal_example_com)
qed

lemma example_run_unbound: "run_dns_enum None example_world ''example.com'' = Inl NameError"
proof -
  have "truthy (normalizeDomainForDNS example_world (''www.'' @ ''example.com''))"
    using normalize_www [of example_world] by (simp add: example_world_def truthy_def)
  from www_discovered [OF this]
  have "''www.example.com'' \<in>
      set (set_order example_world (discovered_subdomains example_world ''example.com''))"
    by (simp add: example_world_def)
  then show ?thesis
    by (intro run_unbound [where x = "''www.example.com''"]) (simp_all add: normal_example_com)
qed

subsection \<open>The end-to-end scenario\<close>

lemma fetch_records_no_answer:
  "no_answer (doh w d q) \<Longrightarrow> fetch_records w d r q = r"
  by (simp add: fetch_records_def no_answer_def split: doh_response.splits)

lemma foldl_add_answer_SOA: "\<exists>s. foldl (add_answer ''SOA'') r as = r\<lparr>rec_SOA := s\<rparr>"
proof (induction as arbitrary: r)
  case Nil
  have "r = r\<lparr>rec_SOA := rec_SOA r\<rparr>" by simp
  then show ?case by (metis foldl_Nil)
next
  case (Cons a as)
  from Cons [of "add_answer ''SOA'' r a"] obtain s where
    "foldl (add_answer ''SOA'') (add_answer ''SOA'' r a) as =
       (add_answer ''SOA'' r a)\<lparr>rec_SOA := s\<rparr>" by blast
  then have "foldl (add_answer ''SOA'') r (a # as) = r\<lparr>rec_SOA := s\<rparr>"
    by (simp add: add_answer_def)
  then show ?case by blast
qed

lemma fetch_records_SOA: "\<exists>s. fetch_records w d r ''SOA'' = r\<lparr>rec_SOA := s\<rparr>"
proof (cases "doh w d ''SOA''")
  case DohError
  have "r = r\<lparr>rec_SOA := rec_SOA r\<rparr>" by simp
  with DohError show ?thesis by (metis doh_response.simps(4) fetch_records_def)
next
  case (DohReply as)
  with foldl_add_answer_SOA [of r as] show ?thesis by (simp add: fetch_records_def)
qed

lemma scenario_records:
  assumes "doh w d ''A'' = DohReply [a]"
    and "no_answer (doh w d ''AAAA'')" and "no_answer (doh w d ''MX'')"
    and "no_answer (doh w d ''NS'')" and "no_answer (doh w d ''TXT'')"
    and "no_answer (doh w d ''CNAME'')"
  shows "\<exists>s. get_dns_records w d = no_records\<lparr>rec_A := [ans_data a], rec_SOA := s\<rparr>"
proof -
  have 1: "fetch_records w d no_records ''A'' = no_records\<lparr>rec_A := [ans_data a]\<rparr>"
    using assms(1) by (simp add: fetch_records_def add_answer_def no_records_def)
  obtain s where "fetch_records w d (no_records\<lparr>rec_A := [ans_data a]\<rparr>) ''SOA'' =
      no_records\<lparr>rec_A := [ans_data a], rec_SOA := s\<rparr>"
    using fetch_records_SOA [of w d "no_records\<lparr>rec_A := [ans_data a]\<rparr>"] by auto
  then have "get_dns_records w d = no_records\<lparr>rec_A := [ans_data a], rec_SOA := s\<rparr>"
    using assms(2-6) by (simp add: get_dns_records_def 1 fetch_records_no_answer)
  then show ?thesis by blast
qed

lemma link_ip_falsy: "\<not> truthy x \<Longrightarrow> link_ip w host i x st = st"
  by (auto simp add: link_ip_def truthy_def split: option.splits)

lemma add_node_fresh:
  assumes "strip (lower x) = x" and "node_map st x = None"
  shows "add_node ''subdomain'' x None st =
           (next_node_id st,
            st\<lparr>nodes := nodes st @ [subdomain_node (next_node_id st) x],
               node_map := (node_map st)(x \<mapsto> next_node_id st),
               next_node_id := next_node_id st + 1\<rparr>)"
  using assms by (simp add: add_node_def subdomain_node_def)

lemma subdomain_step_fresh:
  assumes "x \<noteq> domain" and "strip (lower x) = x" and "\<not> truthy (f x)"
    and "node_map st x = None"
  shows "subdomain_step (Some f) w domain m st x =
           Inr (st\<lparr>nodes := nodes st @ [subdomain_node (next_node_id st) x],
                   links := links st @
                     [\<lparr>link_source = m, link_target = next_node_id st,
                       link_type = ''has_subdomain''\<rparr>],
                   node_map := (node_map st)(x \<mapsto> next_node_id st),
                   next_node_id := next_node_id st + 1\<rparr>)"
  using assms
  by (simp add: subdomain_step_def add_node_fresh add_link_def link_ip_falsy
        run_port_scan_resolve_domain_to_ip_def)

lemma subdomain_loop_fresh:
  assumes "\<forall>x \<in> set xs. x \<noteq> domain \<and> strip (lower x) = x \<and> \<not> truthy (f x) \<and>
             node_map st x = None"
    and "distinct xs"
  shows "\<exists>st'. for_each (subdomain_step (Some f) w domain m) st xs = Inr st' \<and>
           nodes st' = nodes st @ map (\<lambda>(i, x). subdomain_node i x)
             (zip [next_node_id st..<next_node_id st + length xs] xs) \<and>
           links st' = links st @
             map (\<lambda>i. \<lparr>link_source = m, link_target = i, link_type = ''has_subdomain''\<rparr>)
               [next_node_id st..<next_node_id st + length xs]"
  using assms
proof (induction xs arbitrary: st)
  case Nil
  then show ?case by simp
next
  case (Cons x xs)
  define n where "n = next_node_id st"
  define st1 where "st1 = st\<lparr>nodes := nodes st @ [subdomain_node n x],
      links := links st @ [\<lparr>link_source = m, link_target = n, link_type = ''has_subdomain''\<rparr>],
      node_map := (node_map st)(x \<mapsto> n), next_node_id := n + 1\<rparr>"
  have step: "subdomain_step (Some f) w domain m st x = Inr st1"
    using Cons.prems(1) by (simp add: subdomain_step_fresh st1_def n_def)
  have "\<forall>y \<in> set xs. y \<noteq> domain \<and> strip (lower y) = y \<and> \<not> truthy (f y) \<and>
          node_map st1 y = None"
    using Cons.prems by (auto simp add: st1_def)
  moreover have "distinct xs" using Cons.prems(2) by simp
  ultimately obtain st' where
    r: "for_each (subdomain_step (Some f) w domain m) st1 xs = Inr st'" and
    ns: "nodes st' = nodes st1 @ map (\<lambda>(i, x). subdomain_node i x)
             (zip [next_node_id st1..<next_node_id st1 + length xs] xs)" and
    ls: "links st' = links st1 @
             map (\<lambda>i. \<lparr>link_source = m, link_target = i, link_type = ''has_subdomain''\<rparr>)
               [next_node_id st1..<next_node_id st1 + length xs]"
    using Cons.IH [of st1] by blast
  have u: "[n..<n + length (x # xs)] = n # [Suc n..<Suc n + length xs]"
    by (subst upt_rec) simp
  have "for_each (subdomain_step (Some f) w domain m) st (x # xs) = Inr st'"
    using step r by simp
  moreover have "nodes st' = nodes st @ map (\<lambda>(i, x). subdomain_node i x)
             (zip [n..<n + length (x # xs)] (x # xs))"
    unfolding u using ns by (simp add: st1_def)
  moreover have "links st' = links st @
             map (\<lambda>i. \<lparr>link_source = m, link_target = i, link_type = ''has_subdomain''\<rparr>)
               [n..<n + length (x # xs)]"
    unfolding u using ls by (simp add: st1_def)
  ultimately show ?case unfolding n_def by blast
qed

lemma foldl_wordlist_all:
  assumes "\<forall>sub \<in> set subs. truthy (normalizeDomainForDNS w (sub @ ''.'' @ d))"
    and "distinct (acc @ map (\<lambda>sub. sub @ ''.'' @ d) subs)"
  shows "foldl (wordlist_step w d) acc subs = acc @ map (\<lambda>sub. sub @ ''.'' @ d) subs"
  using assms
proof (induction subs arbitrary: acc)
  case Nil
  then show ?case by simp
next
  case (Cons sub subs)
  have s: "wordlist_step w d acc sub = acc @ [sub @ ''.'' @ d]"
    using Cons.prems by (simp add: wordlist_step_def set_add_def)
  have "foldl (wordlist_step w d) (acc @ [sub @ ''.'' @ d]) subs =
        (acc @ [sub @ ''.'' @ d]) @ map (\<lambda>sub. sub @ ''.'' @ d) subs"
    using Cons.prems by (intro Cons.IH) auto
  then show ?case by (simp add: s)
qed

lemma distinct_COMMON_SUBDOMAINS: "distinct COMMON_SUBDOMAINS"
  by (simp add: COMMON_SUBDOMAINS_def)

lemma distinct_wordlist_names: "distinct (wordlist_names d)"
  unfolding wordlist_names_def
  by (simp add: distinct_map distinct_COMMON_SUBDOMAINS inj_on_def)

lemma length_wordlist_names: "length (wordlist_names d) = 25"
  by (simp add: wordlist_names_def COMMON_SUBDOMAINS_def)

lemma wordlist_discovered:
  assumes "\<forall>n \<in> set (wordlist_names d). truthy (normalizeDomainForDNS w n)"
    and "discover_subdomains_crtsh w d = []"
  shows "discovered_subdomains w d = wordlist_names d"
proof -
  have "foldl (wordlist_step w d) [] COMMON_SUBDOMAINS =
        [] @ map (\<lambda>sub. sub @ ''.'' @ d) COMMON_SUBDOMAINS"
    using assms(1) distinct_wordlist_names [of d]
    by (intro foldl_wordlist_all) (simp_all add: wordlist_names_def)
  then show ?thesis using assms(2) by (simp add: discovered_subdomains_def wordlist_names_def)
qed

lemma normal_ip: "strip (lower ''93.184.216.34'') = ''93.184.216.34''"
  by (simp add: strip_def strip_by_def is_space_def lower_def lower_char_def)

lemma wordlist_names_facts:
  "list_all (\<lambda>x. x \<noteq> ''example.com'' \<and> x \<noteq> ''93.184.216.34'' \<and> strip (lower x) = x \<and>
                 \<not> is_valid_ipv4_address x)
     (wordlist_names ''example.com'')"
  by (simp add: wordlist_names_def COMMON_SUBDOMAINS_def strip_def strip_by_def is_space_def
        lower_def lower_char_def is_valid_ipv4_address_def octets_def digits1to3_def is_digit_def)

lemma resolve_no_answer:
  "\<not> is_valid_ipv4_address x \<Longrightarrow> no_answer (doh w x ''A'') \<Longrightarrow>
   fst (resolve_domain_to_ip w x) = None"
  by (auto simp add: resolve_domain_to_ip_def no_answer_def split: doh_response.splits)

lemma link_ptr_same:
  assumes "case gethostbyaddr w ip of None \<Rightarrow> True | Some h \<Rightarrow> h = [] \<or> lower h = owner"
  shows "link_ptr w ip i owner st = st"
  using assms by (auto simp add: link_ptr_def perform_reverse_dns_lookup_def split: option.splits)

lemma scenario_run:
  assumes A: "doh w ''example.com'' ''A'' = DohReply [a]" "ans_data a = ''93.184.216.34''"
    and O: "no_answer (doh w ''example.com'' ''AAAA'')" "no_answer (doh w ''example.com'' ''MX'')"
      "no_answer (doh w ''example.com'' ''NS'')" "no_answer (doh w ''example.com'' ''TXT'')"
      "no_answer (doh w ''example.com'' ''CNAME'')"
    and N: "\<forall>n \<in> set (wordlist_names ''example.com''). no_answer (doh w n ''A'')"
    and C: "discover_subdomains_crtsh w ''example.com'' = []"
    and R: "case gethostbyaddr w ''93.184.216.34'' of None \<Rightarrow> True
            | Some h \<Rightarrow> h = [] \<or> lower h = ''example.com''"
    and I: "\<forall>n \<in> set (wordlist_names ''example.com''). truthy (normalizeDomainForDNS w n)"
    and P: "\<And>xs. mset (set_order w xs) = mset xs"
  shows "run_dns_enum (port_scanner_resolver w) w ''example.com'' =
           Inr (example_graph (set_order w (wordlist_names ''example.com'')))"
proof -
  define f where "f = (\<lambda>host. fst (resolve_domain_to_ip w host))"
  define ord where "ord = set_order w (wordlist_names ''example.com'')"
  define root where "root = \<lparr>node_id = 0, node_type = ''domain'', node_value = ''example.com'',
      node_label = ''example.com'', txt_records = None\<rparr>"
  define ipn where "ipn = \<lparr>node_id = 1, node_type = ''ip_v4'', node_value = ''93.184.216.34'',
      node_label = ''93.184.216.34'', txt_records = None\<rparr>"
  define st1 where "st1 = \<lparr>nodes = [root], links = [],
      node_map = [''example.com'' \<mapsto> (0::nat)], next_node_id = 1\<rparr>"
  define st2 where "st2 = \<lparr>nodes = [root, ipn],
      links = [\<lparr>link_source = 0, link_target = 1, link_type = ''A_record''\<rparr>],
      node_map = [''example.com'' \<mapsto> (0::nat), ''93.184.216.34'' \<mapsto> 1], next_node_id = 2\<rparr>"
  have a1: "add_node ''domain'' ''example.com'' (Some ''example.com'')
      \<lparr>nodes = [], links = [], node_map = Map.empty, next_node_id = 0\<rparr> = (0, st1)"
    by (simp add: add_node_def Let_def normal_example_com st1_def root_def)
  obtain s where recs: "get_dns_records w ''example.com'' =
      no_records\<lparr>rec_A := [''93.184.216.34''], rec_SOA := s\<rparr>"
    using scenario_records [OF A(1) O] A(2) by auto
  have a2: "a_step w ''example.com'' 0 st1 ''93.184.216.34'' = st2"
    by (simp add: a_step_def add_node_def Let_def normal_ip st1_def st2_def ipn_def
          add_link_def link_ptr_same [OF R])
  have e: "enum_records (port_scanner_resolver w) w ''example.com'' 0
             (get_dns_records w ''example.com'') st1 = Inr st2"
    by (simp add: enum_records_def recs no_records_def a2 txt_step_def)
  have d: "discovered_subdomains w ''example.com'' = wordlist_names ''example.com''"
    using I C by (rule wordlist_discovered)
  have so: "set ord = set (wordlist_names ''example.com'')"
    unfolding ord_def using P by (rule mset_eq_setD)
  have dist: "distinct ord"
    unfolding ord_def using P distinct_wordlist_names mset_eq_imp_distinct_iff by blast
  have facts: "\<forall>x \<in> set ord. x \<noteq> ''example.com'' \<and> strip (lower x) = x \<and> \<not> truthy (f x) \<and>
                 node_map st2 x = None"
  proof
    fix x assume "x \<in> set ord"
    then have x: "x \<in> set (wordlist_names ''example.com'')" by (simp add: so)
    with wordlist_names_facts have
      p: "x \<noteq> ''example.com''" "x \<noteq> ''93.184.216.34''" "strip (lower x) = x"
        "\<not> is_valid_ipv4_address x"
      by (auto simp add: list_all_iff)
    from x N have "no_answer (doh w x ''A'')" by blast
    with p(4) have "f x = None" by (simp add: f_def resolve_no_answer)
    with p show "x \<noteq> ''example.com'' \<and> strip (lower x) = x \<and> \<not> truthy (f x) \<and>
                 node_map st2 x = None"
      by (simp add: truthy_def st2_def)
  qed
  from subdomain_loop_fresh [OF facts dist, of w 0] obtain st3 where
    r: "for_each (subdomain_step (Some f) w ''example.com'' 0) st2 ord = Inr st3" and
    ns: "nodes st3 = nodes st2 @ map (\<lambda>(i, x). subdomain_node i x)
           (zip [next_node_id st2..<next_node_id st2 + length ord] ord)" and
    ls: "links st3 = links st2 @
           map (\<lambda>i. \<lparr>link_source = 0, link_target = i, link_type = ''has_subdomain''\<rparr>)
             [next_node_id st2..<next_node_id st2 + length ord]"
    by blast
  have g: "\<lparr>g_nodes = nodes st3, g_links = links st3\<rparr> = example_graph ord"
    by (simp add: ns ls st2_def example_graph_def root_def ipn_def has_subdomain_def)
  have "run_dns_enum (port_scanner_resolver w) w ''example.com'' =
          Inr \<lparr>g_nodes = nodes st3, g_links = links st3\<rparr>"
    using a1 e r
    by (simp add: run_dns_enum_def Let_def normal_example_com d port_scanner_resolver_def
          f_def [symmetric] ord_def [symmetric])
  with g show ?thesis by (simp add: ord_def)
qed

subsection \<open>The example world\<close>

lemma example_names_accepted:
  "list_all (\<lambda>n. truthy (normalizeDomainForDNS example_world n)) (wordlist_names ''example.com'')"
  by (simp add: wordlist_names_def COMMON_SUBDOMAINS_def truthy_def normalizeDomainForDNS_def
        example_world_def example_idna_def is_alnum_def is_ascii_def lower_def lower_char_def
        endswith_def)

lemma example_run:
  "run_dns_enum (port_scanner_resolver example_world) example_world ''example.com'' =
     Inr (example_graph (wordlist_names ''example.com''))"
proof -
  have N: "\<forall>n \<in> set (wordlist_names ''example.com''). no_answer (doh example_world n ''A'')"
    using wordlist_names_facts by (auto simp add: list_all_iff example_world_def no_answer_def)
  have I: "\<forall>n \<in> set (wordlist_names ''example.com'').
             truthy (normalizeDomainForDNS example_world n)"
    using example_names_accepted by (simp add: list_all_iff)
  have "run_dns_enum (port_scanner_resolver example_world) example_world ''example.com'' =
     Inr (example_graph (set_order example_world (wordlist_names ''example.com'')))"
    by (rule scenario_run [where a = "\<lparr>ans_name = ''example.com'', ans_data = ''93.184.216.34''\<rparr>",
          OF _ _ _ _ _ _ _ N _ _ I])
       (simp_all add: example_world_def no_answer_def discover_subdomains_crtsh_def)
  then show ?thesis by (simp add: example_world_def)
qed

lemma example_graph_size:
  "length names = 25 \<Longrightarrow>
   length (g_nodes (example_graph names)) = 27 \<and> length (g_links (example_graph names)) = 26"
  by (simp add: example_graph_def)

subsection \<open>With the resolver's name bound, a run returns\<close>

lemma for_each_returns:
  assumes "\<And>st x. \<exists>st'. body st x = Inr st'"
  shows "\<exists>st'. for_each body st xs = Inr st'"
proof (induction xs arbitrary: st)
  case Nil
  show ?case by simp
next
  case (Cons x xs)
  obtain st1 where "body st x = Inr st1" using assms by blast
  with Cons [of st1] show ?case by simp
qed

lemma mx_step_returns: "\<exists>st'. mx_step (Some f) w m st r = Inr st'"
  by (simp add: mx_step_def run_port_scan_resolve_domain_to_ip_def Let_def split: prod.splits)

lemma ns_step_returns: "\<exists>st'. ns_step (Some f) w m st r = Inr st'"
  by (simp add: ns_step_def run_port_scan_resolve_domain_to_ip_def Let_def split: prod.splits)

lemma cname_step_returns: "\<exists>st'. cname_step (Some f) domain m st e = Inr st'"
  by (simp add: cname_step_def run_port_scan_resolve_domain_to_ip_def Let_def
        split: prod.splits option.splits)

lemma subdomain_step_returns: "\<exists>st'. subdomain_step (Some f) w domain m st x = Inr st'"
  by (simp add: subdomain_step_def run_port_scan_resolve_domain_to_ip_def Let_def
        split: prod.splits)

lemma enum_records_returns: "\<exists>st'. enum_records (Some f) w domain m recs st = Inr st'"
proof -
  obtain st3 where 3: "for_each (mx_step (Some f) w m)
      (foldl (aaaa_step m) (foldl (a_step w domain m) st (rec_A recs)) (rec_AAAA recs))
      (rec_MX recs) = Inr st3"
    using for_each_returns [of "mx_step (Some f) w m", OF mx_step_returns] by blast
  obtain st4 where 4: "for_each (ns_step (Some f) w m) st3 (rec_NS recs) = Inr st4"
    using for_each_returns [of "ns_step (Some f) w m", OF ns_step_returns] by blast
  obtain st5 where "for_each (cname_step (Some f) domain m)
      (txt_step m (rec_TXT recs) st4) (rec_CNAME recs) = Inr st5"
    using for_each_returns [of "cname_step (Some f) domain m", OF cname_step_returns] by blast
  with 3 4 show ?thesis by (simp add: enum_records_def Let_def)
qed

lemma run_dns_enum_bound_returns:
  "\<exists>g. run_dns_enum (Some f) w d = Inr g \<and> g_nodes g \<noteq> [] \<and>
       core (g_nodes g ! 0) = (0, ''domain'', strip (lower d), strip (lower d))"
proof -
  define domain where "domain = strip (lower d)"
  obtain m st1 where a: "add_node ''domain'' domain (Some domain)
      \<lparr>nodes = [], links = [], node_map = Map.empty, next_node_id = 0\<rparr> = (m, st1)"
    by (cases "add_node ''domain'' domain (Some domain)
      \<lparr>nodes = [], links = [], node_map = Map.empty, next_node_id = 0\<rparr>")
  obtain st2 where e: "enum_records (Some f) w domain m (get_dns_records w domain) st1 = Inr st2"
    using enum_records_returns by blast
  obtain st3 where "for_each (subdomain_step (Some f) w domain m) st2
      (set_order w (discovered_subdomains w domain)) = Inr st3"
    using for_each_returns [of "subdomain_step (Some f) w domain m", OF subdomain_step_returns]
    by blast
  with a e have r: "run_dns_enum (Some f) w d = Inr \<lparr>g_nodes = nodes st3, g_links = links st3\<rparr>"
    by (simp add: run_dns_enum_def Let_def domain_def [symmetric])
  from run_dns_enum_wf [OF r] show ?thesis using r by auto
qed

section \<open>The claims about the graph\<close>

text \<open>
  Claim C1, amended. In a run on \<open>example.com\<close> where the upstream has the one \<open>A\<close> record
  \<open>93.184.216.34\<close> for the root and no \<open>AAAA\<close>, \<open>MX\<close>, \<open>NS\<close>, \<open>TXT\<close> or \<open>CNAME\<close> record,
  no \<open>A\<close> record for any wordlist candidate, the certificate search yields no subdomain
  and the address has no other reverse name, \<open>run_dns_enum\<close> with the resolver's name
  bound to \<open>resolve_domain_to_ip\<close> returns 27 nodes and 26 links: the root, its address
  and the \<open>A_record\<close> link between them, and for each of the 25 wordlist candidates, as
  accepted by the normalizer and in the order the set yields them, a \<open>subdomain\<close> node
  with a \<open>has_subdomain\<close> link from the root.
\<close>

theorem end_to_end_graph:
  assumes "doh w ''example.com'' ''A'' = DohReply [a]" and "ans_data a = ''93.184.216.34''"
    and "no_answer (doh w ''example.com'' ''AAAA'')" and "no_answer (doh w ''example.com'' ''MX'')"
    and "no_answer (doh w ''example.com'' ''NS'')" and "no_answer (doh w ''example.com'' ''TXT'')"
    and "no_answer (doh w ''example.com'' ''CNAME'')"
    and "\<forall>n \<in> set (wordlist_names ''example.com''). no_answer (doh w n ''A'')"
    and "discover_subdomains_crtsh w ''example.com'' = []"
    and "case gethostbyaddr w ''93.184.216.34'' of None \<Rightarrow> True
         | Some h \<Rightarrow> h = [] \<or> lower h = ''example.com''"
    and "\<forall>n \<in> set (wordlist_names ''example.com''). truthy (normalizeDomainForDNS w n)"
    and "\<And>xs. mset (set_order w xs) = mset xs"
  shows "run_dns_enum (port_scanner_resolver w) w ''example.com'' =
           Inr (example_graph (set_order w (wordlist_names ''example.com''))) \<and>
         length (g_nodes (example_graph (set_order w (wordlist_names ''example.com'')))) = 27 \<and>
         length (g_links (example_graph (set_order w (wordlist_names ''example.com'')))) = 26"
proof -
  have "length (set_order w (wordlist_names ''example.com'')) = 25"
    using assms(12) [of "wordlist_names ''example.com''"] length_wordlist_names mset_eq_length
    by fastforce
  then show ?thesis
    using scenario_run [OF assms] example_graph_size by blast
qed

theorem end_to_end_graph_witness:
  "run_dns_enum (port_scanner_resolver example_world) example_world ''example.com'' =
     Inr (example_graph (set_order example_world (wordlist_names ''example.com''))) \<and>
   length (g_nodes (example_graph (set_order example_world (wordlist_names ''example.com''))))
     = 27 \<and>
   length (g_links (example_graph (set_order example_world (wordlist_names ''example.com''))))
     = 26"
proof -
  have N: "\<forall>n \<in> set (wordlist_names ''example.com''). no_answer (doh example_world n ''A'')"
    using wordlist_names_facts by (auto simp add: list_all_iff example_world_def no_answer_def)
  have I: "\<forall>n \<in> set (wordlist_names ''example.com'').
             truthy (normalizeDomainForDNS example_world n)"
    using example_names_accepted by (simp add: list_all_iff)
  show ?thesis
    by (rule end_to_end_graph
          [where a = "\<lparr>ans_name = ''example.com'', ans_data = ''93.184.216.34''\<rparr>",
           OF _ _ _ _ _ _ _ N _ _ I])
       (simp_all add: example_world_def no_answer_def discover_subdomains_crtsh_def)
qed

text \<open>
  Claim C1 as stated fails: in the example world the run does not return two nodes and
  one link. With the resolver's name bound it returns 27 nodes and 26 links; with the
  name unbound, as in the module, it raises \<open>NameError\<close>.
\<close>

theorem end_to_end_two_nodes_counterexample:
  "run_dns_enum (port_scanner_resolver example_world) example_world ''example.com'' =
     Inr (example_graph (wordlist_names ''example.com'')) \<and>
   length (g_nodes (example_graph (wordlist_names ''example.com''))) = 27 \<and>
   length (g_links (example_graph (wordlist_names ''example.com''))) = 26 \<and>
   run_dns_enum None example_world ''example.com'' = Inl NameError"
  using example_run example_run_unbound
    example_graph_size [OF length_wordlist_names, of "''example.com''"]
  by blast

text \<open>
  Claim C2. \<open>add_node\<close> called with a value whose normalized form is in the map returns
  the id stored there and leaves the state, and with it the type and the label of the
  node, as it was, whatever type the call names. In a state that satisfies the invariant
  that id is the id of the node at that index, whose value is the normalized form. In
  every graph that \<open>run_dns_enum\<close> returns the values of the nodes are pairwise different.
\<close>

theorem add_node_dedup:
  "(node_map st (strip (lower v)) = Some i \<longrightarrow> add_node t v l st = (i, st)) \<and>
   (wf_state st \<and> node_map st (strip (lower v)) = Some i \<longrightarrow>
      i < length (nodes st) \<and> node_id (nodes st ! i) = i \<and>
      node_value (nodes st ! i) = strip (lower v)) \<and>
   (run_dns_enum b w d = Inr g \<longrightarrow> distinct (map node_value (g_nodes g)))"
proof (intro conjI impI)
  assume "node_map st (strip (lower v)) = Some i"
  then show "add_node t v l st = (i, st)" by (simp add: add_node_def)
next
  assume a: "wf_state st \<and> node_map st (strip (lower v)) = Some i"
  then have i: "i < length (nodes st)" and v: "node_value (nodes st ! i) = strip (lower v)"
    by (auto simp add: wf_state_def)
  from a have "map node_id (nodes st) ! i = [0..<length (nodes st)] ! i"
    by (simp add: wf_state_def)
  with i have "node_id (nodes st ! i) = i" by simp
  with i v show "i < length (nodes st)" "node_id (nodes st ! i) = i"
    "node_value (nodes st ! i) = strip (lower v)" by simp_all
next
  assume "run_dns_enum b w d = Inr g"
  from run_dns_enum_wf [OF this] show "distinct (map node_value (g_nodes g))"
    by (auto simp add: wf_state_def)
qed

lemma example_root_state_add:
  "add_node ''domain'' ''example.com'' (Some ''example.com'')
     \<lparr>nodes = [], links = [], node_map = Map.empty, next_node_id = 0\<rparr> =
   (0, example_root_state)"
  by (simp add: add_node_def Let_def normal_example_com example_root_state_def)

lemma example_root_state_wf: "wf_state example_root_state"
  using add_node_wf [OF wf_init example_root_state_add] by simp

lemma normal_Example_COM: "strip (lower '' Example.COM '') = ''example.com''"
  by (simp add: strip_def strip_by_def is_space_def lower_def lower_char_def char_of_eq_iff)

theorem add_node_dedup_witness:
  "node_map example_root_state (strip (lower '' Example.COM '')) = Some 0 \<and>
   add_node ''mail_server'' '' Example.COM '' None example_root_state =
     (0, example_root_state) \<and>
   wf_state example_root_state \<and>
   node_id (nodes example_root_state ! 0) = 0 \<and>
   node_value (nodes example_root_state ! 0) = strip (lower '' Example.COM '') \<and>
   run_dns_enum (port_scanner_resolver example_world) example_world ''example.com'' =
     Inr (example_graph (wordlist_names ''example.com'')) \<and>
   distinct (map node_value (g_nodes (example_graph (wordlist_names ''example.com''))))"
proof -
  have m: "node_map example_root_state (strip (lower '' Example.COM '')) = Some 0"
    by (simp add: normal_Example_COM example_root_state_def)
  note t = add_node_dedup [of example_root_state "'' Example.COM ''" 0 "''mail_server''" None
      "port_scanner_resolver example_world" example_world "''example.com''"
      "example_graph (wordlist_names ''example.com'')"]
  from t m have 1: "add_node ''mail_server'' '' Example.COM '' None example_root_state =
     (0, example_root_state)" by blast
  from t m example_root_state_wf have 2: "node_id (nodes example_root_state ! 0) = 0"
    "node_value (nodes example_root_state ! 0) = strip (lower '' Example.COM '')" by blast+
  from t example_run have 3:
    "distinct (map node_value (g_nodes (example_graph (wordlist_names ''example.com''))))"
    by blast
  from m 1 2 3 example_root_state_wf example_run show ?thesis by blast
qed

text \<open>
  Claim C3. A run in which every lookup fails is to return, without raising, a graph that
  holds the root domain node. The module as it stands does not: it calls the resolver
  by a name it never binds, so a run that reaches a call raises \<open>NameError\<close>. This run
  on \<open>example.com\<close>, where every lookup fails, reaches one at the first wordlist
  candidate and returns no graph. (With the name bound, lemma
  \<open>run_dns_enum_bound_returns\<close> shows that every run returns a graph whose first node is
  the root domain.)
\<close>

theorem unbound_resolver_raises:
  "run_dns_enum None offline_world ''example.com'' = Inl NameError"
  by (rule offline_run_unbound)

text \<open>
  Claim C10. In every graph that \<open>run_dns_enum\<close> returns, the ids of the nodes are
  \<open>0, 1, 2, \<dots>\<close> in the order of the list, so that each node's id is its index, and the
  source and the target of every link are ids of nodes of the list. Ids are given in the
  order of first observation: in a state that satisfies the invariant, \<open>add_node\<close> on a
  value not yet in the map returns the number of nodes so far and appends the new node,
  with that id, to the list.
\<close>

theorem run_dns_enum_ids:
  "(run_dns_enum b w d = Inr g \<longrightarrow>
      map node_id (g_nodes g) = [0..<length (g_nodes g)] \<and>
      (\<forall>i < length (g_nodes g). node_id (g_nodes g ! i) = i) \<and>
      list_all (\<lambda>k. link_source k \<in> node_id ` set (g_nodes g) \<and>
                     link_target k \<in> node_id ` set (g_nodes g)) (g_links g)) \<and>
   (wf_state st \<and> node_map st (strip (lower v)) = None \<longrightarrow>
      fst (add_node t v l st) = length (nodes st) \<and>
      butlast (nodes (snd (add_node t v l st))) = nodes st \<and>
      node_id (last (nodes (snd (add_node t v l st)))) = length (nodes st))"
proof (intro conjI impI)
  assume r: "run_dns_enum b w d = Inr g"
  from run_dns_enum_wf [OF r] obtain s where s: "wf_state s" "g_nodes g = nodes s"
    "g_links g = links s" by blast
  from s show ids: "map node_id (g_nodes g) = [0..<length (g_nodes g)]"
    by (simp add: wf_state_def)
  show "\<forall>i < length (g_nodes g). node_id (g_nodes g ! i) = i"
  proof (intro allI impI)
    fix i assume i: "i < length (g_nodes g)"
    from ids have "map node_id (g_nodes g) ! i = [0..<length (g_nodes g)] ! i" by simp
    with i show "node_id (g_nodes g ! i) = i" by simp
  qed
  have "node_id ` set (g_nodes g) = set (map node_id (g_nodes g))" by simp
  also have "\<dots> = {0..<length (g_nodes g)}" by (simp only: ids set_upt)
  finally have img: "node_id ` set (g_nodes g) = {0..<length (g_nodes g)}" .
  from s show "list_all (\<lambda>k. link_source k \<in> node_id ` set (g_nodes g) \<and>
                     link_target k \<in> node_id ` set (g_nodes g)) (g_links g)"
    unfolding img by (simp add: wf_state_def list_all_iff)
next
  assume a: "wf_state st \<and> node_map st (strip (lower v)) = None"
  then show "fst (add_node t v l st) = length (nodes st)"
    "butlast (nodes (snd (add_node t v l st))) = nodes st"
    "node_id (last (nodes (snd (add_node t v l st)))) = length (nodes st)"
    by (simp_all add: add_node_def Let_def wf_state_def)
qed

theorem run_dns_enum_ids_witness:
  "run_dns_enum (port_scanner_resolver example_world) example_world ''example.com'' =
     Inr (example_graph (wordlist_names ''example.com'')) \<and>
   map node_id (g_nodes (example_graph (wordlist_names ''example.com''))) =
     [0..<length (g_nodes (example_graph (wordlist_names ''example.com'')))] \<and>
   list_all (\<lambda>k. link_source k \<in> node_id ` set (g_nodes (example_graph (wordlist_names ''example.com''))) \<and>
                  link_target k \<in> node_id ` set (g_nodes (example_graph (wordlist_names ''example.com''))))
     (g_links (example_graph (wordlist_names ''example.com''))) \<and>
   wf_state example_root_state \<and>
   node_map example_root_state (strip (lower ''93.184.216.34'')) = None \<and>
   fst (add_node ''ip_v4'' ''93.184.216.34'' None example_root_state) = 1"
proof -
  have m: "node_map example_root_state (strip (lower ''93.184.216.34'')) = None"
    by (simp add: normal_ip example_root_state_def)
  have n: "length (nodes example_root_state) = 1" by (simp add: example_root_state_def)
  note t = run_dns_enum_ids [of "port_scanner_resolver example_world" example_world
      "''example.com''" "example_graph (wordlist_names ''example.com'')" example_root_state
      "''93.184.216.34''" "''ip_v4''" None]
  from t example_run have 1:
    "map node_id (g_nodes (example_graph (wordlist_names ''example.com''))) =
     [0..<length (g_nodes (example_graph (wordlist_names ''example.com'')))]"
    "list_all (\<lambda>k. link_source k \<in> node_id ` set (g_nodes (example_graph (wordlist_names ''example.com''))) \<and>
                  link_target k \<in> node_id ` set (g_nodes (example_graph (wordlist_names ''example.com''))))
     (g_links (example_graph (wordlist_names ''example.com'')))"
    by blast+
  from t m example_root_state_wf
  have "fst (add_node ''ip_v4'' ''93.184.216.34'' None example_root_state) =
        length (nodes example_root_state)" by blast
  with n have 2: "fst (add_node ''ip_v4'' ''93.184.216.34'' None example_root_state) = 1"
    by simp
  from 1 2 m example_root_state_wf example_run show ?thesis by blast
qed

section \<open>Properties of the certificate search\<close>

lemma startswith_length: "startswith p s \<Longrightarrow> length p \<le> length s"
  by (induction p s rule: startswith.induct) simp_all

lemma endswith_longer: "endswith (c # d) n \<Longrightarrow> n \<noteq> d"
proof
  assume "endswith (c # d) n" "n = d"
  then have "startswith (rev (c # d)) (rev d)" by (simp add: endswith_def)
  from startswith_length [OF this] show False by simp
qed

lemma crt_common_name_set:
  "set (crt_common_name d cn s) =
     set s \<union> (if under_domain d cn then {folded d cn} else {})"
  by (auto simp add: crt_common_name_def under_domain_def folded_def set_add_set)

lemma crt_name_set:
  "set (crt_name d s name0) =
     set s \<union> (if under_domain d (strip name0) then {folded d (strip name0)} else {})"
  using endswith_longer [of "CHR ''.''" d "strip name0"]
  by (auto simp add: crt_name_def Let_def under_domain_def folded_def set_add_set)

lemma foldl_crt_name_set:
  "set (foldl (crt_name d) s names) =
     set s \<union> folded d ` {n \<in> set (map strip names). under_domain d n}"
  by (induction names arbitrary: s) (auto simp add: crt_name_set)

lemma crt_cert_set:
  "set (crt_cert d s c) = set s \<union> folded d ` {n \<in> set (cert_names c). under_domain d n}"
  by (auto simp add: crt_cert_def Let_def cert_names_def crt_common_name_set
        foldl_crt_name_set split: option.splits)

lemma foldl_crt_cert_set:
  "set (foldl (crt_cert d) s certs) =
     set s \<union> folded d ` {n \<in> set (concat (map cert_names certs)). under_domain d n}"
  by (induction certs arbitrary: s) (auto simp add: crt_cert_set)

lemma remove_wildcards_plain: "CHR ''*'' \<notin> set s \<Longrightarrow> remove_wildcards s = s"
  by (induction s rule: remove_wildcards.induct) auto

lemma lower_char_star: "(lower_char c = CHR ''*'') = (c = CHR ''*'')"
proof -
  have "(lower_char c = CHR ''*'') = ((of_char (lower_char c) :: nat) = of_char CHR ''*'')"
    by (simp only: of_char_eq_iff)
  also have "\<dots> = ((of_char c :: nat) = of_char CHR ''*'')"
    by (auto simp add: of_char_lower_char is_upper_def Let_def)
  also have "\<dots> = (c = CHR ''*'')" by (simp only: of_char_eq_iff)
  finally show ?thesis .
qed

lemma star_lower_char: "(CHR ''*'' = lower_char c) = (c = CHR ''*'')"
  using lower_char_star [of c] by auto

lemma star_lower: "(CHR ''*'' \<in> set (lower s)) = (CHR ''*'' \<in> set s)"
  by (induction s) (auto simp add: lower_def lower_char_star star_lower_char)

lemma lower_wildcard: "lower (CHR ''*'' # CHR ''.'' # s) = CHR ''*'' # CHR ''.'' # lower s"
proof -
  have "lower_char CHR ''*'' = CHR ''*''" "lower_char CHR ''.'' = CHR ''.''"
    by (simp_all add: lower_char_star lower_char_dot)
  then show ?thesis by (simp add: lower_def)
qed

text \<open>
  Claim C8, amended. When the search returns certificates, the output of
  \<open>discover_subdomains_crtsh\<close> is, as a set, the folded forms of the certificates' names
  that pass the filter. The names are \<open>common_name\<close> as returned and the lines of
  \<open>name_value\<close>, trimmed; the filter asks that the name as returned, upper and lower case
  distinguished, equals the root domain or ends with a dot and the root domain; the
  folded form is the lower-cased name, with every \<open>*.\<close> removed when the name starts
  with \<open>*.\<close>, so that a wildcard entry \<open>*.sub.domain\<close> gives \<open>sub.domain\<close>. When the
  search fails the output is empty.
\<close>

theorem discover_subdomains_crtsh_names:
  assumes "\<And>xs. mset (set_order w xs) = mset xs"
  shows "(crtsh w d = CrtReply certs \<longrightarrow>
            set (discover_subdomains_crtsh w d) =
              folded d ` {n \<in> set (concat (map cert_names certs)). under_domain d n}) \<and>
         (crtsh w d = CrtError \<longrightarrow> discover_subdomains_crtsh w d = []) \<and>
         (CHR ''*'' \<notin> set s \<and> ''*.'' @ s \<noteq> d \<longrightarrow> folded d (''*.'' @ s) = lower s) \<and>
         (\<not> startswith ''*.'' n \<longrightarrow> folded d n = lower n)"
proof (intro conjI impI)
  have so: "set (set_order w xs) = set xs" for xs
    using assms [of xs] by (rule mset_eq_setD)
  {
    assume "crtsh w d = CrtReply certs"
    then show "set (discover_subdomains_crtsh w d) =
              folded d ` {n \<in> set (concat (map cert_names certs)). under_domain d n}"
      by (simp add: discover_subdomains_crtsh_def so foldl_crt_cert_set)
  }
  {
    assume "crtsh w d = CrtError"
    moreover have "set_order w [] = []" using so [of "[]"] by simp
    ultimately show "discover_subdomains_crtsh w d = []"
      by (simp add: discover_subdomains_crtsh_def)
  }
  {
    assume a: "CHR ''*'' \<notin> set s \<and> ''*.'' @ s \<noteq> d"
    then have "remove_wildcards (lower s) = lower s"
      by (simp add: remove_wildcards_plain star_lower)
    with a show "folded d (''*.'' @ s) = lower s"
      by (simp add: folded_def lower_wildcard)
  }
  {
    assume "\<not> startswith ''*.'' n"
    then show "folded d n = lower n" by (simp add: folded_def)
  }
qed

lemma crt_world_output:
  "discover_subdomains_crtsh crt_world ''example.com'' =
     [''shop.example.com'', ''example.com'']"
  by (simp add: discover_subdomains_crtsh_def crt_world_def crt_cert_def crt_common_name_def
        crt_name_def set_add_def endswith_def Let_def strip_def strip_by_def is_space_def
        lower_def lower_char_def char_of_eq_iff)

lemma lower_WWW: "lower ''WWW.EXAMPLE.COM'' = ''www.example.com''"
  by (simp add: lower_def lower_char_def char_of_eq_iff)

lemma lower_Mail: "lower ''Mail.Example.com'' = ''mail.example.com''"
  by (simp add: lower_def lower_char_def char_of_eq_iff)

text \<open>
  Claim C8 as stated fails: the search returns \<open>WWW.EXAMPLE.COM\<close> and \<open>Mail.Example.com\<close>,
  whose lower-cased forms are strict subdomains of \<open>example.com\<close>, and neither is in the
  output.
\<close>

theorem crtsh_case_counterexample:
  "crtsh crt_world ''example.com'' =
     CrtReply [\<lparr>common_name = Some ''WWW.EXAMPLE.COM'', name_value = None\<rparr>,
               \<lparr>common_name = Some ''*.shop.example.com'',
                name_value = Some (''Mail.Example.com'' @ [CHR 0x0A] @ '' example.com '')\<rparr>] \<and>
   lower ''WWW.EXAMPLE.COM'' = ''www.example.com'' \<and>
   lower ''Mail.Example.com'' = ''mail.example.com'' \<and>
   endswith ''.example.com'' ''www.example.com'' \<and>
   endswith ''.example.com'' ''mail.example.com'' \<and>
   discover_subdomains_crtsh crt_world ''example.com'' =
     [''shop.example.com'', ''example.com''] \<and>
   ''www.example.com'' \<notin> set (discover_subdomains_crtsh crt_world ''example.com'') \<and>
   ''mail.example.com'' \<notin> set (discover_subdomains_crtsh crt_world ''example.com'')"
  by (simp add: crt_world_output lower_WWW lower_Mail endswith_def) (simp add: crt_world_def)

theorem discover_subdomains_crtsh_names_witness:
  "crtsh crt_world ''example.com'' =
     CrtReply [\<lparr>common_name = Some ''WWW.EXAMPLE.COM'', name_value = None\<rparr>,
               \<lparr>common_name = Some ''*.shop.example.com'',
                name_value = Some (''Mail.Example.com'' @ [CHR 0x0A] @ '' example.com '')\<rparr>] \<and>
   set (discover_subdomains_crtsh crt_world ''example.com'') =
     folded ''example.com'' `
       {n \<in> set (concat (map cert_names
               [\<lparr>common_name = Some ''WWW.EXAMPLE.COM'', name_value = None\<rparr>,
                \<lparr>common_name = Some ''*.shop.example.com'',
                 name_value = Some (''Mail.Example.com'' @ [CHR 0x0A] @ '' example.com '')\<rparr>])).
          under_domain ''example.com'' n} \<and>
   crtsh offline_world ''example.com'' = CrtError \<and>
   discover_subdomains_crtsh offline_world ''example.com'' = [] \<and>
   folded ''example.com'' ''*.shop.example.com'' = lower ''shop.example.com'' \<and>
   folded ''example.com'' ''example.com'' = lower ''example.com''"
proof -
  have p: "\<And>xs. mset (set_order crt_world xs) = mset xs" by (simp add: crt_world_def)
  have q: "\<And>xs. mset (set_order offline_world xs) = mset xs" by (simp add: offline_world_def)
  have c: "crtsh crt_world ''example.com'' =
     CrtReply [\<lparr>common_name = Some ''WWW.EXAMPLE.COM'', name_value = None\<rparr>,
               \<lparr>common_name = Some ''*.shop.example.com'',
                name_value = Some (''Mail.Example.com'' @ [CHR 0x0A] @ '' example.com '')\<rparr>]"
    by (simp add: crt_world_def)
  have e: "crtsh offline_world ''example.com'' = CrtError" by (simp add: offline_world_def)
  have s: "CHR ''*'' \<notin> set ''shop.example.com'' \<and> ''*.'' @ ''shop.example.com'' \<noteq> ''example.com''"
    by simp
  have n: "\<not> startswith ''*.'' ''example.com''" by simp
  note t1 = discover_subdomains_crtsh_names [OF p, of "''example.com''" _ "''shop.example.com''"
      "''example.com''"]
  note t2 = discover_subdomains_crtsh_names [OF q, of "''example.com''" "[]" "''shop.example.com''"
      "''example.com''"]
  from t1 c have 1: "set (discover_subdomains_crtsh crt_world ''example.com'') =
     folded ''example.com'' `
       {n \<in> set (concat (map cert_names
               [\<lparr>common_name = Some ''WWW.EXAMPLE.COM'', name_value = None\<rparr>,
                \<lparr>common_name = Some ''*.shop.example.com'',
                 name_value = Some (''Mail.Example.com'' @ [CHR 0x0A] @ '' example.com '')\<rparr>])).
          under_domain ''example.com'' n}" by blast
  from t2 e have 2: "discover_subdomains_crtsh offline_world ''example.com'' = []" by blast
  from t1 s have 3: "folded ''example.com'' (''*.'' @ ''shop.example.com'') = lower ''shop.example.com''"
    by blast
  from t1 n have 4: "folded ''example.com'' ''example.com'' = lower ''example.com''" by blast
  from c 1 e 2 3 4 show ?thesis by simp
qed

end
